theory Spec2Isabelle
  imports Complex_Main
begin

section \<open>Numbers, arrays and errors\<close>

text \<open>
  The engine of \<^verbatim>\<open>raycasting.js\<close> computes with JavaScript numbers. They are modelled
  as real numbers with exact arithmetic; counters and array indices are integers.
  The values \<^verbatim>\<open>NaN\<close> and \<^verbatim>\<open>Infinity\<close> have no counterpart: a division by zero
  gives 0 here. The results below keep the divisors away from zero by their
  hypotheses, or do not depend on what such a quotient is.
\<close>

definition js_trunc :: "real \<Rightarrow> int" where
  "js_trunc v = (if 0 \<le> v then \<lfloor>v\<rfloor> else \<lceil>v\<rceil>)"

text \<open>
  The operator \<^verbatim>\<open>%\<close>: the remainder takes the sign of the dividend. With the
  divisor 0 the source has \<^verbatim>\<open>NaN\<close>, which this definition does not render: the
  properties below take remainders by positive divisors only.
\<close>

definition js_rem :: "real \<Rightarrow> real \<Rightarrow> real" where
  "js_rem p q = p - q * of_int (js_trunc (p / q))"

text \<open>
  Reading \<^verbatim>\<open>xs[i]\<close>: \<open>None\<close> stands for \<^verbatim>\<open>undefined\<close>, which is what an index
  outside the array gives. Reading a property of \<^verbatim>\<open>undefined\<close> throws a TypeError.
\<close>

datatype error = TypeError

definition at_index :: "'a list \<Rightarrow> int \<Rightarrow> 'a option" where
  "at_index xs i = (if 0 \<le> i \<and> i < int (length xs) then Some (xs ! nat i) else None)"

section \<open>The data object\<close>

datatype Color = Color nat nat nat nat

text \<open>
  A texture is either the procedural one (\<^verbatim>\<open>bitmap\<close> and \<^verbatim>\<open>colors\<close>) or one with
  an \<^verbatim>\<open>id\<close>, whose \<^verbatim>\<open>data\<close> is the color array that \<^verbatim>\<open>loadTextures\<close> has read
  from the image. The arguments are width, height, and then the pixels.
\<close>

datatype texture =
    Bitmap nat nat "nat list list" "Color list"
  | Image nat nat "Color list"

fun tex_width :: "texture \<Rightarrow> nat" where
  "tex_width (Bitmap w h bm cs) = w"
| "tex_width (Image w h px) = w"

fun tex_height :: "texture \<Rightarrow> nat" where
  "tex_height (Bitmap w h bm cs) = h"
| "tex_height (Image w h px) = h"

text \<open>\<^verbatim>\<open>texture.data\<close>: \<^verbatim>\<open>undefined\<close> on the procedural texture.\<close>

fun tex_data :: "texture \<Rightarrow> Color list option" where
  "tex_data (Bitmap w h bm cs) = None"
| "tex_data (Image w h px) = Some px"

text \<open>
  The fields of \<^verbatim>\<open>data\<close> that the engine reads. The projection size is the size of the
  offscreen canvas in pixels (\<^verbatim>\<open>screen.width / screen.scale\<close>, 160 by 120 in the
  source). The framebuffer \<^verbatim>\<open>data.projection.buffer\<close> is passed separately.
\<close>

record data =
  projection_width :: nat
  projection_height :: nat
  floorTextures :: "texture list"
  backgrounds :: "texture list"
  precision :: real
  player_fov :: real
  player_x :: real
  player_y :: real
  player_angle :: real
  speed_movement :: real
  speed_rotation :: real
  player_radius :: real
  key_up :: bool
  key_down :: bool
  key_left :: bool
  key_right :: bool
  tilemap :: "nat list list"
  textures :: "texture list"

text \<open>The block \<^verbatim>\<open>// Calculated data\<close>.\<close>

definition player_halfFov :: "data \<Rightarrow> real" where
  "player_halfFov d = player_fov d / 2"

definition projection_halfHeight :: "data \<Rightarrow> real" where
  "projection_halfHeight d = real (projection_height d) / 2"

definition incrementAngle :: "data \<Rightarrow> real" where
  "incrementAngle d = player_fov d / real (projection_width d)"

definition degreeToRadians :: "real \<Rightarrow> real" where
  "degreeToRadians degree = degree * pi / 180"

section \<open>Movement\<close>

text \<open>
  Reading \<^verbatim>\<open>data.map[i][j]\<close>: a row index outside the map gives \<^verbatim>\<open>undefined\<close>
  and the column read throws; a column index outside the row gives \<^verbatim>\<open>undefined\<close>.
\<close>

definition readTile :: "nat list list \<Rightarrow> int \<Rightarrow> int \<Rightarrow> error + nat option" where
  "readTile m i j =
     (case at_index m i of None \<Rightarrow> Inl TypeError | Some row \<Rightarrow> Inr (at_index row j))"

text \<open>
  The lines under \<^verbatim>\<open>// Collision detection\<close>, the same in the forward and in the
  backward branch. The map is read without a bounds check, and \<^verbatim>\<open>undefined\<close> is
  not \<^verbatim>\<open>== 0\<close>. The second test reads \<^verbatim>\<open>data.player.y\<close> after the first
  assignment. The result is the error thrown, if any, and the state of \<^verbatim>\<open>data\<close> at
  that moment.
\<close>

definition collisionDetection ::
  "data \<Rightarrow> real \<Rightarrow> real \<Rightarrow> int \<Rightarrow> int \<Rightarrow> error option \<times> data" where
  "collisionDetection d newX newY checkX checkY =
     (case readTile (tilemap d) checkY \<lfloor>player_x d\<rfloor> of
        Inl e \<Rightarrow> (Some e, d)
      | Inr tileA \<Rightarrow>
          (let d1 = (if tileA = Some 0 then d\<lparr>player_y := newY\<rparr> else d)
           in case readTile (tilemap d1) \<lfloor>player_y d1\<rfloor> checkX of
                Inl e \<Rightarrow> (Some e, d1)
              | Inr tileB \<Rightarrow>
                  (None, if tileB = Some 0 then d1\<lparr>player_x := newX\<rparr> else d1)))"

text \<open>
  The branches \<^verbatim>\<open>if (data.key.up.active)\<close> and \<^verbatim>\<open>if (data.key.down.active)\<close> up
  to the collision detection. Numbers are exact reals here and doubles in the source:
  a sum that the source rounds to the other side of an integer has another floor there
  than here. The moves evaluated below keep every floored sum further from an integer
  than the rounding of a double can reach.
\<close>

definition moveForward :: "data \<Rightarrow> error option \<times> data" where
  "moveForward d =
     (let playerCos = cos (degreeToRadians (player_angle d)) * speed_movement d;
          playerSin = sin (degreeToRadians (player_angle d)) * speed_movement d;
          newX = player_x d + playerCos;
          newY = player_y d + playerSin;
          checkX = \<lfloor>newX + playerCos * player_radius d\<rfloor>;
          checkY = \<lfloor>newY + playerSin * player_radius d\<rfloor>
      in collisionDetection d newX newY checkX checkY)"

definition moveBackward :: "data \<Rightarrow> error option \<times> data" where
  "moveBackward d =
     (let playerCos = cos (degreeToRadians (player_angle d)) * speed_movement d;
          playerSin = sin (degreeToRadians (player_angle d)) * speed_movement d;
          newX = player_x d - playerCos;
          newY = player_y d - playerSin;
          checkX = \<lfloor>newX - playerCos * player_radius d\<rfloor>;
          checkY = \<lfloor>newY - playerSin * player_radius d\<rfloor>
      in collisionDetection d newX newY checkX checkY)"

definition turnLeft :: "data \<Rightarrow> data" where
  "turnLeft d =
     (let a1 = player_angle d - speed_rotation d;
          a2 = (if a1 < 0 then a1 + 360 else a1)
      in d\<lparr>player_angle := js_rem a2 360\<rparr>)"

definition turnRight :: "data \<Rightarrow> data" where
  "turnRight d = d\<lparr>player_angle := js_rem (player_angle d + speed_rotation d) 360\<rparr>"

definition movePlayer :: "data \<Rightarrow> error option \<times> data" where
  "movePlayer d =
     (case (if key_up d then moveForward d else (None, d)) of
        (Some e, d1) \<Rightarrow> (Some e, d1)
      | (None, d1) \<Rightarrow>
          (case (if key_down d1 then moveBackward d1 else (None, d1)) of
             (Some e, d2) \<Rightarrow> (Some e, d2)
           | (None, d2) \<Rightarrow>
               (let d3 = (if key_left d2 then turnLeft d2 else d2);
                    d4 = (if key_right d3 then turnRight d3 else d3)
                in (None, d4))))"

text \<open>One tick of the main loop as far as the player is concerned.\<close>

definition tick :: "data \<Rightarrow> data" where
  "tick d = snd (movePlayer d)"

section \<open>The framebuffer\<close>

text \<open>
  \<^verbatim>\<open>data.projection.buffer\<close> is the byte array of an \<^verbatim>\<open>ImageData\<close>: a store
  outside the array is ignored, and a stored number is clamped to a byte.
\<close>

definition setByte :: "nat list \<Rightarrow> int \<Rightarrow> nat \<Rightarrow> nat list" where
  "setByte buf i v =
     (if 0 \<le> i \<and> i < int (length buf) then buf[nat i := min v 255] else buf)"

definition pixelOffset :: "data \<Rightarrow> real \<Rightarrow> real \<Rightarrow> int" where
  "pixelOffset d x y = 4 * (\<lfloor>x\<rfloor> + \<lfloor>y\<rfloor> * int (projection_width d))"

text \<open>
  \<^verbatim>\<open>drawPixel\<close>: with \<^verbatim>\<open>color\<close> undefined, reading \<^verbatim>\<open>color.r\<close> throws before
  anything is stored.
\<close>

definition drawPixel ::
  "data \<Rightarrow> real \<Rightarrow> real \<Rightarrow> Color option \<Rightarrow> nat list \<Rightarrow> error + nat list" where
  "drawPixel d x y color buf =
     (case color of
        None \<Rightarrow> Inl TypeError
      | Some (Color r g b a) \<Rightarrow>
          (let offset = pixelOffset d x y
           in Inr (setByte (setByte (setByte (setByte buf offset r)
                     (offset + 1) g) (offset + 2) b) (offset + 3) a)))"

function drawLine ::
  "data \<Rightarrow> real \<Rightarrow> real \<Rightarrow> real \<Rightarrow> Color option \<Rightarrow> nat list \<Rightarrow> error + nat list" where
  "drawLine d x y y2 color buf =
     (if y < y2
      then (case drawPixel d x y color buf of
              Inl e \<Rightarrow> Inl e
            | Inr buf' \<Rightarrow> drawLine d x (y + 1) y2 color buf')
      else Inr buf)"
  by pat_completeness auto
termination
  by (relation "measure (\<lambda>(d, x, y, y2, color, buf). nat \<lceil>y2 - y\<rceil>)") (auto, linarith)

section \<open>Ray casting\<close>

text \<open>
  \<^verbatim>\<open>data.map[0].length\<close>. In both bounds checks it stands last in a chain of
  \<^verbatim>\<open>||\<close> whose second operand is already true for an empty map, so it is only
  evaluated on a map with a first row.
\<close>

definition mapWidth :: "nat list list \<Rightarrow> nat" where
  "mapWidth m = (case m of [] \<Rightarrow> 0 | row0 # rest \<Rightarrow> length row0)"

text \<open>The condition under \<^verbatim>\<open>// Bounds check to prevent crashes\<close>.\<close>

definition outOfBounds :: "nat list list \<Rightarrow> real \<Rightarrow> real \<Rightarrow> bool" where
  "outOfBounds m x y =
     (y < 0 \<or> real (length m) \<le> y \<or> x < 0 \<or> real (mapWidth m) \<le> x)"

text \<open>
  The loop under \<^verbatim>\<open>// Wall finder\<close>, from the ray at \<open>(x, y)\<close>. It returns the
  ray and \<^verbatim>\<open>wall\<close> when the loop ends; \<open>None\<close> is the loop that never ends.
  \<^verbatim>\<open>wall\<close> is \<^verbatim>\<open>undefined\<close> when the row read is shorter than the first row.
  The ray is a pair of exact reals, so that a step always moves it; in the source it is
  a pair of doubles, and a step below half the spacing of the doubles at a coordinate
  leaves that coordinate where it is. Every property below that has this loop end is
  stated for steps of at least \<open>1 / 2 ^ 21\<close> on one axis and coordinates below \<open>2 ^ 20\<close>
  (\<open>steady\<close>), where the spacing of the doubles is \<open>1 / 2 ^ 32\<close> or less.
\<close>

partial_function (option) wallFinder ::
  "nat list list \<Rightarrow> real \<Rightarrow> real \<Rightarrow> real \<Rightarrow> real \<Rightarrow> (error + real \<times> real \<times> nat option) option"
where
  "wallFinder m rayCos raySin x y =
     (if outOfBounds m (x + rayCos) (y + raySin)
      then Some (Inr (x + rayCos, y + raySin, Some 1))
      else (case readTile m \<lfloor>y + raySin\<rfloor> \<lfloor>x + rayCos\<rfloor> of
              Inl e \<Rightarrow> Some (Inl e)
            | Inr wall \<Rightarrow>
                if wall = Some 0
                then wallFinder m rayCos raySin (x + rayCos) (y + raySin)
                else Some (Inr (x + rayCos, y + raySin, wall))))"

text \<open>
  The values of one iteration of the column loop of \<^verbatim>\<open>rayCasting\<close>: the column
  \<^verbatim>\<open>rayCount\<close>, its \<^verbatim>\<open>rayAngle\<close>, \<^verbatim>\<open>wall\<close>, the ray where the loop ended,
  \<^verbatim>\<open>distance\<close> before and after the fish eye fix, \<^verbatim>\<open>wallHeight\<close>,
  \<^verbatim>\<open>texture\<close> and \<^verbatim>\<open>texturePositionX\<close>.
\<close>

record RayHit =
  hit_rayCount :: nat
  hit_rayAngle :: real
  hit_wall :: nat
  hit_x :: real
  hit_y :: real
  hit_rawDistance :: real
  hit_distance :: real
  hit_wallHeight :: int
  hit_texture :: texture
  hit_texturePositionX :: int

text \<open>\<^verbatim>\<open>Math.floor((texture.width * (ray.x + ray.y)) % texture.width)\<close>.\<close>

definition texturePositionX :: "texture \<Rightarrow> real \<Rightarrow> real \<Rightarrow> int" where
  "texturePositionX texture x y =
     \<lfloor>js_rem (real (tex_width texture) * (x + y)) (real (tex_width texture))\<rfloor>"

text \<open>
  The column loop's body up to \<^verbatim>\<open>// Draw\<close>. With \<^verbatim>\<open>wall\<close> undefined or beyond
  the texture table, \<^verbatim>\<open>texture\<close> is undefined and \<^verbatim>\<open>texture.width\<close> throws.
\<close>

definition castRay :: "data \<Rightarrow> nat \<Rightarrow> real \<Rightarrow> (error + RayHit) option" where
  "castRay d rayCount rayAngle =
     (let rayCos = cos (degreeToRadians rayAngle) / precision d;
          raySin = sin (degreeToRadians rayAngle) / precision d
      in case wallFinder (tilemap d) rayCos raySin (player_x d) (player_y d) of
           None \<Rightarrow> None
         | Some (Inl e) \<Rightarrow> Some (Inl e)
         | Some (Inr (rx, ry, wall)) \<Rightarrow>
             (let distance = sqrt ((player_x d - rx)\<^sup>2 + (player_y d - ry)\<^sup>2);
                  fixed = distance * cos (degreeToRadians (rayAngle - player_angle d));
                  wallHeight = \<lfloor>projection_halfHeight d / fixed\<rfloor>
              in case wall of
                   None \<Rightarrow> Some (Inl TypeError)
                 | Some w \<Rightarrow>
                     (case at_index (textures d) (int w - 1) of
                        None \<Rightarrow> Some (Inl TypeError)
                      | Some texture \<Rightarrow>
                          Some (Inr \<lparr>hit_rayCount = rayCount, hit_rayAngle = rayAngle,
                            hit_wall = w, hit_x = rx, hit_y = ry,
                            hit_rawDistance = distance, hit_distance = fixed,
                            hit_wallHeight = wallHeight, hit_texture = texture,
                            hit_texturePositionX = texturePositionX texture rx ry\<rparr>))))"

section \<open>Drawing a column\<close>

text \<open>
  The color that \<^verbatim>\<open>drawTexture\<close> takes for the texture row \<open>i\<close>: from
  \<^verbatim>\<open>texture.data\<close> when the texture has an \<^verbatim>\<open>id\<close>, from the bitmap and the
  palette otherwise (a missing bitmap row throws, a missing entry gives an
  undefined color).
\<close>

fun textureColor :: "texture \<Rightarrow> int \<Rightarrow> nat \<Rightarrow> error + Color option" where
  "textureColor (Image w h px) tpx i = Inr (at_index px (tpx + int i * int w))"
| "textureColor (Bitmap w h bm cs) tpx i =
     (case at_index bm (int i) of
        None \<Rightarrow> Inl TypeError
      | Some row \<Rightarrow>
          (case at_index row tpx of
             None \<Rightarrow> Inr None
           | Some c \<Rightarrow> Inr (at_index cs (int c))))"

function drawTextureLoop ::
  "data \<Rightarrow> real \<Rightarrow> real \<Rightarrow> int \<Rightarrow> texture \<Rightarrow> nat \<Rightarrow> real \<Rightarrow> nat list \<Rightarrow> error + nat list"
where
  "drawTextureLoop d x yIncrementer tpx texture i y buf =
     (if i < tex_height texture
      then (case textureColor texture tpx i of
              Inl e \<Rightarrow> Inl e
            | Inr color \<Rightarrow>
                (case drawLine d x y (of_int \<lfloor>y + (yIncrementer + 2)\<rfloor>) color buf of
                   Inl e \<Rightarrow> Inl e
                 | Inr buf' \<Rightarrow>
                     drawTextureLoop d x yIncrementer tpx texture (i + 1)
                       (y + yIncrementer) buf'))
      else Inr buf)"
  by pat_completeness auto
termination
  by (relation "measure (\<lambda>(d, x, yi, tpx, texture, i, y, buf). tex_height texture - i)") auto

definition drawTexture ::
  "data \<Rightarrow> real \<Rightarrow> int \<Rightarrow> int \<Rightarrow> texture \<Rightarrow> nat list \<Rightarrow> error + nat list" where
  "drawTexture d x wallHeight tpx texture buf =
     (let yIncrementer = (of_int wallHeight * 2) / real (tex_height texture);
          y = projection_halfHeight d - of_int wallHeight
      in drawTextureLoop d x yIncrementer tpx texture 0 y buf)"

text \<open>
  \<^verbatim>\<open>drawBackground\<close>; \<open>background\<close> is \<^verbatim>\<open>data.backgrounds[0]\<close>, whose fields
  are read only when the loop runs.
\<close>

function drawBackgroundLoop ::
  "data \<Rightarrow> real \<Rightarrow> real \<Rightarrow> real \<Rightarrow> real \<Rightarrow> texture option \<Rightarrow> nat list \<Rightarrow> error + nat list"
where
  "drawBackgroundLoop d x offset y y2 background buf =
     (if y < y2
      then (case background of
              None \<Rightarrow> Inl TypeError
            | Some bg \<Rightarrow>
                (let textureX = \<lfloor>js_rem offset (real (tex_width bg))\<rfloor>;
                     textureY = \<lfloor>js_rem y (real (tex_height bg))\<rfloor>
                 in case tex_data bg of
                      None \<Rightarrow> Inl TypeError
                    | Some px \<Rightarrow>
                        (case drawPixel d x y
                                (at_index px (textureX + textureY * int (tex_width bg))) buf of
                           Inl e \<Rightarrow> Inl e
                         | Inr buf' \<Rightarrow>
                             drawBackgroundLoop d x offset (y + 1) y2 background buf')))
      else Inr buf)"
  by pat_completeness auto
termination
  by (relation "measure (\<lambda>(d, x, offset, y, y2, bg, buf). nat \<lceil>y2 - y\<rceil>)") (auto, linarith)

definition drawBackground ::
  "data \<Rightarrow> real \<Rightarrow> real \<Rightarrow> real \<Rightarrow> texture option \<Rightarrow> nat list \<Rightarrow> error + nat list" where
  "drawBackground d x y1 y2 background buf =
     drawBackgroundLoop d x (player_angle d + x) y1 y2 background buf"

section \<open>Floor casting\<close>

text \<open>
  The two assignments to \<^verbatim>\<open>distance\<close> at the head of the loop of \<^verbatim>\<open>drawFloor\<close>,
  for the row \<open>y\<close> of the column whose ray has the angle \<open>rayAngle\<close>.
\<close>

definition floorDistance :: "data \<Rightarrow> real \<Rightarrow> real" where
  "floorDistance d y =
     real (projection_height d) / (2 * y - real (projection_height d))"

definition floorDistanceFixed :: "data \<Rightarrow> real \<Rightarrow> real \<Rightarrow> real" where
  "floorDistanceFixed d rayAngle y =
     floorDistance d y
       / cos (degreeToRadians (player_angle d) - degreeToRadians rayAngle)"

text \<open>The world point \<^verbatim>\<open>(tilex, tiley)\<close> of the row \<open>y\<close>.\<close>

definition floorPoint :: "data \<Rightarrow> real \<Rightarrow> real \<Rightarrow> real \<times> real" where
  "floorPoint d rayAngle y =
     (let distance = floorDistanceFixed d rayAngle y
      in (distance * cos (degreeToRadians rayAngle) + player_x d,
          distance * sin (degreeToRadians rayAngle) + player_y d))"

text \<open>The test before \<^verbatim>\<open>continue\<close> on \<^verbatim>\<open>mapY\<close> and \<^verbatim>\<open>mapX\<close>.\<close>

definition floorOutOfBounds :: "nat list list \<Rightarrow> int \<Rightarrow> int \<Rightarrow> bool" where
  "floorOutOfBounds m mapX mapY =
     (mapY < 0 \<or> int (length m) \<le> mapY \<or> mapX < 0 \<or> int (mapWidth m) \<le> mapX)"

text \<open>\<^verbatim>\<open>data.floorTextures[tile]\<close>, undefined for an undefined tile.\<close>

definition floorTexture :: "data \<Rightarrow> nat option \<Rightarrow> texture option" where
  "floorTexture d tile =
     (case tile of None \<Rightarrow> None | Some t \<Rightarrow> at_index (floorTextures d) (int t))"

text \<open>
  \<^verbatim>\<open>texture_x\<close> and \<^verbatim>\<open>texture_y\<close>: the remainder of two integers, taken as
  \<^verbatim>\<open>%\<close> takes it. It is an integer; the outer floor only turns it into an index.
\<close>

definition floorTextureX :: "texture \<Rightarrow> real \<Rightarrow> int" where
  "floorTextureX texture tilex =
     \<lfloor>js_rem (of_int \<lfloor>tilex * real (tex_width texture)\<rfloor>) (real (tex_width texture))\<rfloor>"

definition floorTextureY :: "texture \<Rightarrow> real \<Rightarrow> int" where
  "floorTextureY texture tiley =
     \<lfloor>js_rem (of_int \<lfloor>tiley * real (tex_height texture)\<rfloor>) (real (tex_height texture))\<rfloor>"

text \<open>One iteration of the loop of \<^verbatim>\<open>drawFloor\<close>: the row \<open>y\<close> of the column \<open>x1\<close>.\<close>

definition drawFloorRow ::
  "data \<Rightarrow> real \<Rightarrow> real \<Rightarrow> real \<Rightarrow> nat list \<Rightarrow> error + nat list" where
  "drawFloorRow d x1 rayAngle y buf =
     (case floorPoint d rayAngle y of
        (tilex, tiley) \<Rightarrow>
          if floorOutOfBounds (tilemap d) \<lfloor>tilex\<rfloor> \<lfloor>tiley\<rfloor> then Inr buf
          else (case readTile (tilemap d) \<lfloor>tiley\<rfloor> \<lfloor>tilex\<rfloor> of
                  Inl e \<Rightarrow> Inl e
                | Inr tile \<Rightarrow>
                    (case floorTexture d tile of
                       None \<Rightarrow> Inr buf
                     | Some texture \<Rightarrow>
                         (case tex_data texture of
                            None \<Rightarrow> Inl TypeError
                          | Some px \<Rightarrow>
                              drawPixel d x1 y
                                (at_index px (floorTextureX texture tilex
                                   + floorTextureY texture tiley * int (tex_width texture)))
                                buf))))"

function drawFloorLoop ::
  "data \<Rightarrow> real \<Rightarrow> real \<Rightarrow> real \<Rightarrow> nat list \<Rightarrow> error + nat list" where
  "drawFloorLoop d x1 rayAngle y buf =
     (if y < real (projection_height d)
      then (case drawFloorRow d x1 rayAngle y buf of
              Inl e \<Rightarrow> Inl e
            | Inr buf' \<Rightarrow> drawFloorLoop d x1 rayAngle (y + 1) buf')
      else Inr buf)"
  by pat_completeness auto
termination
  by (relation "measure (\<lambda>(d, x1, rayAngle, y, buf). nat \<lceil>real (projection_height d) - y\<rceil>)")
    (auto, linarith)

definition floorStart :: "data \<Rightarrow> int \<Rightarrow> real" where
  "floorStart d wallHeight = projection_halfHeight d + of_int wallHeight + 1"

definition drawFloor ::
  "data \<Rightarrow> real \<Rightarrow> int \<Rightarrow> real \<Rightarrow> nat list \<Rightarrow> error + nat list" where
  "drawFloor d x1 wallHeight rayAngle buf =
     drawFloorLoop d x1 rayAngle (floorStart d wallHeight) buf"

section \<open>The column loop\<close>

text \<open>The three calls under \<^verbatim>\<open>// Draw\<close>.\<close>

definition drawColumn :: "data \<Rightarrow> RayHit \<Rightarrow> nat list \<Rightarrow> error + nat list" where
  "drawColumn d hit buf =
     (case drawBackground d (real (hit_rayCount hit)) 0
             (projection_halfHeight d - of_int (hit_wallHeight hit))
             (at_index (backgrounds d) 0) buf of
        Inl e \<Rightarrow> Inl e
      | Inr buf1 \<Rightarrow>
          (case drawTexture d (real (hit_rayCount hit)) (hit_wallHeight hit)
                  (hit_texturePositionX hit) (hit_texture hit) buf1 of
             Inl e \<Rightarrow> Inl e
           | Inr buf2 \<Rightarrow>
               drawFloor d (real (hit_rayCount hit)) (hit_wallHeight hit)
                 (hit_rayAngle hit) buf2))"

text \<open>
  The loop of \<^verbatim>\<open>rayCasting\<close> from the column \<open>rayCount\<close> on. Besides the
  framebuffer it returns the values of each column it has gone through, in the order
  of the iterations. \<open>None\<close>: a wall finder that never ends.
\<close>

function rayCastingLoop ::
  "data \<Rightarrow> nat \<Rightarrow> real \<Rightarrow> RayHit list \<Rightarrow> nat list \<Rightarrow> (error + RayHit list \<times> nat list) option"
where
  "rayCastingLoop d rayCount rayAngle hits buf =
     (if rayCount < projection_width d
      then (case castRay d rayCount rayAngle of
              None \<Rightarrow> None
            | Some (Inl e) \<Rightarrow> Some (Inl e)
            | Some (Inr hit) \<Rightarrow>
                (case drawColumn d hit buf of
                   Inl e \<Rightarrow> Some (Inl e)
                 | Inr buf' \<Rightarrow>
                     rayCastingLoop d (rayCount + 1) (rayAngle + incrementAngle d)
                       (hits @ [hit]) buf'))
      else Some (Inr (hits, buf)))"
  by pat_completeness auto
termination
  by (relation "measure (\<lambda>(d, rayCount, rayAngle, hits, buf). projection_width d - rayCount)")
    auto

definition rayCasting :: "data \<Rightarrow> nat list \<Rightarrow> (error + RayHit list \<times> nat list) option" where
  "rayCasting d buf =
     rayCastingLoop d 0 (player_angle d - player_halfFov d) [] buf"

text \<open>The value of \<^verbatim>\<open>rayAngle\<close> when the column loop enters the column \<open>k\<close>.\<close>

fun rayAngleAt :: "data \<Rightarrow> nat \<Rightarrow> real" where
  "rayAngleAt d 0 = player_angle d - player_halfFov d"
| "rayAngleAt d (Suc k) = rayAngleAt d k + incrementAngle d"

text \<open>The equations of the loops are unfolded by hand, one iteration at a time.\<close>

declare drawLine.simps [simp del]
declare drawTextureLoop.simps [simp del]
declare drawBackgroundLoop.simps [simp del]
declare drawFloorLoop.simps [simp del]
declare rayCastingLoop.simps [simp del]

section \<open>The values of the source\<close>

text \<open>
  The map, the procedural texture and the settings that the source assigns to
  \<^verbatim>\<open>data\<close>. The three images are loaded from the page; \<open>loaded\<close> stands for an
  image of the declared size once \<^verbatim>\<open>getTextureData\<close> has parsed it, here an opaque
  black one.
\<close>

definition sourceMap :: "nat list list" where
  "sourceMap =
     [[2, 2, 2, 2, 2, 2, 2, 2, 2, 2],
      [2, 0, 0, 0, 0, 0, 0, 0, 0, 2],
      [2, 0, 0, 0, 0, 0, 0, 0, 0, 2],
      [2, 0, 0, 2, 2, 0, 2, 0, 0, 2],
      [2, 0, 0, 2, 0, 0, 2, 0, 0, 2],
      [2, 0, 0, 2, 0, 0, 2, 0, 0, 2],
      [2, 0, 0, 2, 0, 2, 2, 0, 0, 2],
      [2, 0, 0, 0, 0, 0, 0, 0, 0, 2],
      [2, 0, 0, 0, 0, 0, 0, 0, 0, 2],
      [2, 2, 2, 2, 2, 2, 2, 2, 2, 2]]"

definition sourceBitmap :: texture where
  "sourceBitmap =
     Bitmap 8 8
       [[1, 1, 1, 1, 1, 1, 1, 1],
        [0, 0, 0, 1, 0, 0, 0, 1],
        [1, 1, 1, 1, 1, 1, 1, 1],
        [0, 1, 0, 0, 0, 1, 0, 0],
        [1, 1, 1, 1, 1, 1, 1, 1],
        [0, 0, 0, 1, 0, 0, 0, 1],
        [1, 1, 1, 1, 1, 1, 1, 1],
        [0, 1, 0, 0, 0, 1, 0, 0]]
       [Color 255 241 232 255, Color 194 195 199 255]"

definition loaded :: "nat \<Rightarrow> nat \<Rightarrow> texture" where
  "loaded w h = Image w h (replicate (w * h) (Color 0 0 0 255))"

definition sourceData :: data where
  "sourceData =
     \<lparr>projection_width = 160, projection_height = 120,
      floorTextures = [loaded 16 16], backgrounds = [loaded 360 60],
      precision = 64, player_fov = 60, player_x = 2, player_y = 2, player_angle = 90,
      speed_movement = 1 / 10, speed_rotation = 9 / 2, player_radius = 3 / 10,
      key_up = False, key_down = False, key_left = False, key_right = False,
      tilemap = sourceMap, textures = [sourceBitmap, loaded 16 16]\<rparr>"

text \<open>A player that looks along the x axis and holds the turn-left key.\<close>

definition turningLeft :: data where
  "turningLeft = sourceData\<lparr>player_angle := 0, key_left := True\<rparr>"

text \<open>What a move leaves alone: the angle, the rotation speed and the keys.\<close>

definition same_turning :: "data \<Rightarrow> data \<Rightarrow> bool" where
  "same_turning d d' \<longleftrightarrow>
     player_angle d' = player_angle d \<and> speed_rotation d' = speed_rotation d
     \<and> key_left d' = key_left d \<and> key_right d' = key_right d
     \<and> key_up d' = key_up d \<and> key_down d' = key_down d"


text \<open>A texture loaded from an image of positive size, with one color per pixel.\<close>

definition imageLoaded :: "texture \<Rightarrow> bool" where
  "imageLoaded t =
     (case t of
        Image w h px \<Rightarrow> 0 < w \<and> 0 < h \<and> length px = w * h
      | Bitmap w h bm cs \<Rightarrow> False)"

section \<open>Maps and rays for the properties\<close>

text \<open>The wall finder ends on the sample \<open>(x, y)\<close>.\<close>

definition stops :: "nat list list \<Rightarrow> real \<Rightarrow> real \<Rightarrow> bool" where
  "stops m x y \<longleftrightarrow> outOfBounds m x y \<or> readTile m \<lfloor>y\<rfloor> \<lfloor>x\<rfloor> \<noteq> Inr (Some 0)"

text \<open>
  A rectangular map; a map whose border tiles are all non-zero; a point in the part of
  the map that the border tiles surround.
\<close>

definition rectangular :: "nat list list \<Rightarrow> bool" where
  "rectangular m = list_all (\<lambda>row. length row = mapWidth m) m"

definition enclosed :: "nat list list \<Rightarrow> bool" where
  "enclosed m \<longleftrightarrow>
     m \<noteq> [] \<and> list_all (\<lambda>t. t \<noteq> 0) (hd m) \<and> list_all (\<lambda>t. t \<noteq> 0) (last m)
     \<and> list_all (\<lambda>row. row \<noteq> [] \<and> hd row \<noteq> 0 \<and> last row \<noteq> 0) m"

definition interior :: "nat list list \<Rightarrow> real \<Rightarrow> real \<Rightarrow> bool" where
  "interior m x y \<longleftrightarrow>
     1 \<le> x \<and> x < real (mapWidth m) - 1 \<and> 1 \<le> y \<and> y < real (length m) - 1"

text \<open>
  The bounds under which the loops of a frame run on doubles as they run on exact
  reals: precision between 1 and \<open>2 ^ 20\<close>, a map and a projection of at most \<open>2 ^ 20\<close>
  rows and columns, and a field of view of more than 0 and at most 179 degrees. The
  larger component of a ray step is then at least \<open>1 / 2 ^ 21\<close>, and a wall height stays
  below \<open>2 ^ 53\<close>, where a double still counts row by row.
\<close>

definition steady :: "data \<Rightarrow> bool" where
  "steady d \<longleftrightarrow>
     1 \<le> precision d \<and> precision d \<le> 2 ^ 20
     \<and> length (tilemap d) \<le> 2 ^ 20 \<and> mapWidth (tilemap d) \<le> 2 ^ 20
     \<and> projection_width d \<le> 2 ^ 20 \<and> projection_height d \<le> 2 ^ 20
     \<and> 0 < player_fov d \<and> player_fov d \<le> 179"

text \<open>
  The map of the source with the corner tile \<^verbatim>\<open>data.map[0][0]\<close> set to 0, the other
  values as in the source. \<open>gapStart\<close> is the state at the start with the turn-right
  key held, \<open>gapData\<close> the state 30 ticks later: the player at (2, 2) looks at the
  corner.
\<close>

definition gapMap :: "nat list list" where
  "gapMap =
     [[0, 2, 2, 2, 2, 2, 2, 2, 2, 2],
      [2, 0, 0, 0, 0, 0, 0, 0, 0, 2],
      [2, 0, 0, 0, 0, 0, 0, 0, 0, 2],
      [2, 0, 0, 2, 2, 0, 2, 0, 0, 2],
      [2, 0, 0, 2, 0, 0, 2, 0, 0, 2],
      [2, 0, 0, 2, 0, 0, 2, 0, 0, 2],
      [2, 0, 0, 2, 0, 2, 2, 0, 0, 2],
      [2, 0, 0, 0, 0, 0, 0, 0, 0, 2],
      [2, 0, 0, 0, 0, 0, 0, 0, 0, 2],
      [2, 2, 2, 2, 2, 2, 2, 2, 2, 2]]"

definition gapStart :: data where
  "gapStart = sourceData\<lparr>tilemap := gapMap, key_right := True\<rparr>"

definition gapData :: data where
  "gapData = gapStart\<lparr>player_angle := 225\<rparr>"

text \<open>
  The values of the column 80 on the data of the source, and of the column 80 on the
  map with the gap, whose ray leaves the map through the corner after 182 steps.
\<close>

definition centerHit :: RayHit where
  "centerHit = \<lparr>hit_rayCount = 80, hit_rayAngle = 90, hit_wall = 2, hit_x = 2, hit_y = 9,
     hit_rawDistance = 7, hit_distance = 7, hit_wallHeight = 8,
     hit_texture = loaded 16 16, hit_texturePositionX = 0\<rparr>"

definition cornerHit :: RayHit where
  "cornerHit = \<lparr>hit_rayCount = 80, hit_rayAngle = 225, hit_wall = 1,
     hit_x = 2 - 91 * sqrt 2 / 64, hit_y = 2 - 91 * sqrt 2 / 64,
     hit_rawDistance = 91 / 32, hit_distance = 91 / 32, hit_wallHeight = 21,
     hit_texture = sourceBitmap, hit_texturePositionX = - 1\<rparr>"

text \<open>The two conditions under which the loop of \<^verbatim>\<open>drawFloor\<close> takes \<^verbatim>\<open>continue\<close>.\<close>

definition floorSkipped :: "data \<Rightarrow> real \<Rightarrow> real \<Rightarrow> bool" where
  "floorSkipped d rayAngle y =
     (case floorPoint d rayAngle y of
        (tilex, tiley) \<Rightarrow>
          floorOutOfBounds (tilemap d) \<lfloor>tilex\<rfloor> \<lfloor>tiley\<rfloor>
          \<or> (case readTile (tilemap d) \<lfloor>tiley\<rfloor> \<lfloor>tilex\<rfloor> of
                Inl e \<Rightarrow> False
              | Inr tile \<Rightarrow> floorTexture d tile = None))"

text \<open>
  A wall texture that \<^verbatim>\<open>drawTexture\<close> can sample at every column and row: an image
  with one color per pixel, or a bitmap of \<open>height\<close> rows of \<open>width\<close> palette
  indices.
\<close>

definition wallTextureLoaded :: "texture \<Rightarrow> bool" where
  "wallTextureLoaded t =
     (case t of
        Image w h px \<Rightarrow> 0 < w \<and> length px = w * h
      | Bitmap w h bm cs \<Rightarrow>
          0 < w \<and> length bm = h
          \<and> list_all (\<lambda>row. length row = w \<and> list_all (\<lambda>c. c < length cs) row) bm)"

text \<open>
  A scene as the spec requires the loader to hand it over, within the bounds of
  \<open>steady\<close>: an angle in \<open>[0, 360)\<close>, the player strictly inside a rectangular
  enclosed map whose tile ids have wall textures, and the textures and the background
  loaded.
\<close>

definition wellFormed :: "data \<Rightarrow> bool" where
  "wellFormed d \<longleftrightarrow>
     steady d \<and> 0 \<le> player_angle d \<and> player_angle d < 360
     \<and> rectangular (tilemap d) \<and> enclosed (tilemap d)
     \<and> interior (tilemap d) (player_x d) (player_y d)
     \<and> list_all (list_all (\<lambda>t. t \<le> length (textures d))) (tilemap d)
     \<and> list_all wallTextureLoaded (textures d)
     \<and> list_all imageLoaded (floorTextures d)
     \<and> (case backgrounds d of [] \<Rightarrow> False | bg # rest \<Rightarrow> imageLoaded bg)"

section \<open>The floor strip as the specification words it\<close>

text \<open>
  Section 4.4 of the specification, step by step, for the row \<open>y\<close> of a column whose
  ray has the angle \<open>rayAngle\<close>: the distance \<open>projectionHeight / (2y - projectionHeight)\<close>
  divided by the cosine of the ray angle minus the player's angle; the world point at
  that distance from the player along the ray; the pixel skipped when the floored world
  point is outside the map or its tile has no floor texture; the texture coordinates
  \<open>floor (world * size) mod size\<close>; the sample drawn. These definitions are written from
  the specification, to be compared with \<open>drawFloorRow\<close> and \<open>drawFloor\<close>, which are
  written from the source.
\<close>

definition spec_floorDistance :: "data \<Rightarrow> real \<Rightarrow> real \<Rightarrow> real" where
  "spec_floorDistance d rayAngle y =
     real (projection_height d) / (2 * y - real (projection_height d))
       / cos (degreeToRadians (rayAngle - player_angle d))"

definition spec_worldPoint :: "data \<Rightarrow> real \<Rightarrow> real \<Rightarrow> real \<times> real" where
  "spec_worldPoint d rayAngle y =
     (player_x d + spec_floorDistance d rayAngle y * cos (degreeToRadians rayAngle),
      player_y d + spec_floorDistance d rayAngle y * sin (degreeToRadians rayAngle))"

definition spec_floorPixel ::
  "data \<Rightarrow> real \<Rightarrow> real \<Rightarrow> real \<Rightarrow> nat list \<Rightarrow> error + nat list" where
  "spec_floorPixel d column rayAngle y buf =
     (case spec_worldPoint d rayAngle y of
        (worldX, worldY) \<Rightarrow>
          if floorOutOfBounds (tilemap d) \<lfloor>worldX\<rfloor> \<lfloor>worldY\<rfloor> then Inr buf
          else (case readTile (tilemap d) \<lfloor>worldY\<rfloor> \<lfloor>worldX\<rfloor> of
                  Inl e \<Rightarrow> Inl e
                | Inr tile \<Rightarrow>
                    (case floorTexture d tile of
                       None \<Rightarrow> Inr buf
                     | Some texture \<Rightarrow>
                         (case tex_data texture of
                            None \<Rightarrow> Inl TypeError
                          | Some px \<Rightarrow>
                              drawPixel d column y
                                (at_index px
                                   (\<lfloor>worldX * real (tex_width texture)\<rfloor>
                                        mod int (tex_width texture)
                                    + \<lfloor>worldY * real (tex_height texture)\<rfloor>
                                        mod int (tex_height texture)
                                      * int (tex_width texture)))
                                buf))))"

function spec_floorStrip ::
  "data \<Rightarrow> real \<Rightarrow> real \<Rightarrow> real \<Rightarrow> nat list \<Rightarrow> error + nat list" where
  "spec_floorStrip d column rayAngle y buf =
     (if y < real (projection_height d)
      then (case spec_floorPixel d column rayAngle y buf of
              Inl e \<Rightarrow> Inl e
            | Inr buf' \<Rightarrow> spec_floorStrip d column rayAngle (y + 1) buf')
      else Inr buf)"
  by pat_completeness auto
termination
  by (relation "measure (\<lambda>(d, column, rayAngle, y, buf). nat \<lceil>real (projection_height d) - y\<rceil>)")
    (auto, linarith)

declare spec_floorStrip.simps [simp del]

section \<open>Properties\<close>

subsection \<open>Turning\<close>

lemma js_rem_range:
  assumes "0 \<le> p" "0 < q"
  shows "0 \<le> js_rem p q \<and> js_rem p q < q"
proof -
  have t: "js_trunc (p / q) = \<lfloor>p / q\<rfloor>"
    using assms by (simp add: js_trunc_def)
  have lo: "of_int \<lfloor>p / q\<rfloor> \<le> p / q" by (rule of_int_floor_le)
  have hi: "p / q < of_int \<lfloor>p / q\<rfloor> + 1" by linarith
  have "q * of_int \<lfloor>p / q\<rfloor> \<le> q * (p / q)"
    using lo assms by (intro mult_left_mono) auto
  then have a: "q * of_int \<lfloor>p / q\<rfloor> \<le> p" using assms by simp
  have "q * (p / q) < q * (of_int \<lfloor>p / q\<rfloor> + 1)"
    using hi assms by (intro mult_strict_left_mono) auto
  then have b: "p < q * (of_int \<lfloor>p / q\<rfloor> + 1)" using assms by simp
  from a b
  show ?thesis
    unfolding js_rem_def t by (simp add: algebra_simps)
qed

lemma turnLeft_range:
  assumes "0 \<le> player_angle d" "speed_rotation d < 360"
  shows "0 \<le> player_angle (turnLeft d) \<and> player_angle (turnLeft d) < 360"
proof -
  let ?a1 = "player_angle d - speed_rotation d"
  let ?a2 = "if ?a1 < 0 then ?a1 + 360 else ?a1"
  have "0 \<le> ?a2" using assms by simp
  then have "0 \<le> js_rem ?a2 360 \<and> js_rem ?a2 360 < 360"
    by (intro js_rem_range) simp_all
  then show ?thesis by (simp add: turnLeft_def Let_def)
qed

lemma turnRight_range:
  assumes "0 \<le> player_angle d" "0 \<le> speed_rotation d"
  shows "0 \<le> player_angle (turnRight d) \<and> player_angle (turnRight d) < 360"
proof -
  have "0 \<le> player_angle d + speed_rotation d" using assms by simp
  then have "0 \<le> js_rem (player_angle d + speed_rotation d) 360
      \<and> js_rem (player_angle d + speed_rotation d) 360 < 360"
    by (intro js_rem_range) simp_all
  then show ?thesis by (simp add: turnRight_def)
qed

lemma collisionDetection_turning:
  "same_turning d (snd (collisionDetection d newX newY checkX checkY))"
  by (simp add: collisionDetection_def same_turning_def Let_def split: sum.splits)

lemma moveForward_turning: "same_turning d (snd (moveForward d))"
  by (simp add: moveForward_def Let_def collisionDetection_turning)

lemma moveBackward_turning: "same_turning d (snd (moveBackward d))"
  by (simp add: moveBackward_def Let_def collisionDetection_turning)

lemma movePlayer_turning:
  "speed_rotation (snd (movePlayer d)) = speed_rotation d"
proof -
  have tl: "speed_rotation (turnLeft e) = speed_rotation e" for e
    by (simp add: turnLeft_def Let_def)
  have tr: "speed_rotation (turnRight e) = speed_rotation e" for e
    by (simp add: turnRight_def)
  have f: "speed_rotation (snd (moveForward d)) = speed_rotation d"
    using moveForward_turning [of d] by (simp add: same_turning_def)
  have b: "speed_rotation (snd (moveBackward e)) = speed_rotation e" for e
    using moveBackward_turning [of e] by (simp add: same_turning_def)
  show ?thesis
    using f b [of "snd (moveForward d)"] b [of d]
    by (auto simp: movePlayer_def Let_def tl tr split: prod.splits option.splits)
qed

lemma movePlayer_angle:
  assumes "0 \<le> player_angle d" "player_angle d < 360"
    and "0 < speed_rotation d" "speed_rotation d < 360"
  shows "0 \<le> player_angle (snd (movePlayer d)) \<and> player_angle (snd (movePlayer d)) < 360"
proof -
  obtain e1 d1 where m1: "(if key_up d then moveForward d else (None, d)) = (e1, d1)"
    by (cases "if key_up d then moveForward d else (None, d)")
  have s1: "same_turning d d1"
    using m1 moveForward_turning [of d] by (auto simp: same_turning_def split: if_splits)
  obtain e2 d2 where m2: "(if key_down d1 then moveBackward d1 else (None, d1)) = (e2, d2)"
    by (cases "if key_down d1 then moveBackward d1 else (None, d1)")
  have s2: "same_turning d d2"
    using m2 s1 moveBackward_turning [of d1] by (auto simp: same_turning_def split: if_splits)
  define d3 where "d3 = (if key_left d2 then turnLeft d2 else d2)"
  define d4 where "d4 = (if key_right d3 then turnRight d3 else d3)"
  have r3: "0 \<le> player_angle d3 \<and> player_angle d3 < 360 \<and> speed_rotation d3 = speed_rotation d"
    using assms s2 turnLeft_range [of d2]
    by (auto simp: d3_def same_turning_def turnLeft_def Let_def)
  have r4: "0 \<le> player_angle d4 \<and> player_angle d4 < 360"
    using assms r3 turnRight_range [of d3] by (auto simp: d4_def)
  have "snd (movePlayer d) = d1 \<or> snd (movePlayer d) = d2 \<or> snd (movePlayer d) = d4"
    using m1 m2 by (cases e1; cases e2) (simp_all add: movePlayer_def d3_def d4_def Let_def)
  then show ?thesis
    using r4 s1 s2 assms by (auto simp: same_turning_def)
qed

lemma ticks_angle:
  assumes "0 \<le> player_angle d" "player_angle d < 360"
    and "0 < speed_rotation d" "speed_rotation d < 360"
  shows "0 \<le> player_angle ((tick ^^ n) d) \<and> player_angle ((tick ^^ n) d) < 360
     \<and> speed_rotation ((tick ^^ n) d) = speed_rotation d"
proof (induction n)
  case 0
  show ?case using assms by simp
next
  case (Suc n)
  define e where "e = (tick ^^ n) d"
  have st: "(tick ^^ Suc n) d = snd (movePlayer e)"
    by (simp add: e_def tick_def)
  from Suc have ih: "0 \<le> player_angle e" "player_angle e < 360" "speed_rotation e = speed_rotation d"
    by (simp_all add: e_def)
  have "0 \<le> player_angle (snd (movePlayer e)) \<and> player_angle (snd (movePlayer e)) < 360"
    using ih assms by (intro movePlayer_angle) simp_all
  moreover have "speed_rotation (snd (movePlayer e)) = speed_rotation d"
    using movePlayer_turning [of e] ih by simp
  ultimately show ?case unfolding st by simp
qed

text \<open>
  Claim C8. With the angle in \<open>[0, 360)\<close> and the rotation speed in \<open>(0, 360)\<close>,
  the angle is again in \<open>[0, 360)\<close> after one call of \<^verbatim>\<open>movePlayer\<close>, whatever
  keys are held and whether or not the call throws; so it stays there over any number
  of ticks, in particular when the rotation speed is subtracted again and again from
  the angle 0.
\<close>

theorem movePlayer_angle_normalized:
  assumes "0 \<le> player_angle d" and "player_angle d < 360"
    and "0 < speed_rotation d" and "speed_rotation d < 360"
  shows "(0 \<le> player_angle (snd (movePlayer d)) \<and> player_angle (snd (movePlayer d)) < 360)
     \<and> (\<forall>n. 0 \<le> player_angle ((tick ^^ n) d) \<and> player_angle ((tick ^^ n) d) < 360)"
  using movePlayer_angle [OF assms] ticks_angle [OF assms] by blast

lemma movePlayer_left_only:
  assumes "\<not> key_up d" "\<not> key_down d" "key_left d" "\<not> key_right d"
  shows "movePlayer d = (None, turnLeft d)"
  using assms by (simp add: movePlayer_def Let_def turnLeft_def)

theorem movePlayer_angle_normalized_witness:
  "player_angle (tick turningLeft) = 711 / 2
   \<and> (\<forall>n. 0 \<le> player_angle ((tick ^^ n) turningLeft)
          \<and> player_angle ((tick ^^ n) turningLeft) < 360)"
proof -
  have h: "0 \<le> player_angle turningLeft" "player_angle turningLeft < 360"
    "0 < speed_rotation turningLeft" "speed_rotation turningLeft < 360"
    by (simp_all add: turningLeft_def sourceData_def)
  have "player_angle (tick turningLeft) = 711 / 2"
    by (simp add: tick_def movePlayer_def turningLeft_def sourceData_def Let_def turnLeft_def
        js_rem_def js_trunc_def)
  with movePlayer_angle_normalized [OF h] show ?thesis by blast
qed

subsection \<open>The floor distance of the bottom row\<close>

text \<open>
  Claim C3 on the projection of the source, which has 120 rows. The bottom row is
  \<open>y = 119\<close>. The claim, like the table of distances in the tutorial that comes with
  the source, has the distance 1 there before the correction. The formula of
  \<^verbatim>\<open>drawFloor\<close> gives \<open>120 / 118\<close> at that row, and the world point of the centre
  column lies \<open>60 / 59\<close> from the player. The formula gives 1 at \<open>y = 120\<close>, a row
  that the loop never enters: started there it returns the framebuffer untouched.
\<close>

theorem bottom_row_distance_source:
  "real (projection_height sourceData) - 1 = 119
   \<and> floorDistance sourceData (real (projection_height sourceData) - 1) = 120 / 118
   \<and> floorDistance sourceData (real (projection_height sourceData) - 1) \<noteq> 1
   \<and> floorPoint sourceData 90 (real (projection_height sourceData) - 1) = (2, 2 + 60 / 59)
   \<and> floorDistance sourceData (real (projection_height sourceData)) = 1
   \<and> drawFloorLoop sourceData 80 90 (real (projection_height sourceData)) (replicate 76800 0)
       = Inr (replicate 76800 0)"
proof -
  have h: "real (projection_height sourceData) = 120" by (simp add: sourceData_def)
  have l: "drawFloorLoop sourceData 80 90 120 (replicate 76800 0) = Inr (replicate 76800 0)"
    by (subst drawFloorLoop.simps) (simp add: sourceData_def)
  have d: "degreeToRadians 90 = pi / 2" by (simp add: degreeToRadians_def)
  have p: "floorPoint sourceData 90 119 = (2, 2 + 60 / 59)"
    by (simp add: floorPoint_def floorDistanceFixed_def floorDistance_def sourceData_def d)
  show ?thesis
    unfolding h using l p by (simp add: floorDistance_def sourceData_def)
qed

subsection \<open>Degrees and radians\<close>

lemma degreeToRadians_diff:
  "degreeToRadians p - degreeToRadians r = - degreeToRadians (r - p)"
  by (simp add: degreeToRadians_def algebra_simps diff_divide_distrib)

subsection \<open>The collision checks\<close>



lemma floor_is: "of_int k \<le> v \<Longrightarrow> v < of_int k + 1 \<Longrightarrow> \<lfloor>v::real\<rfloor> = k"
  by linarith





subsection \<open>The floor texture coordinates\<close>

lemma floor_rem_range:
  assumes "0 \<le> t" "0 < n"
  shows "0 \<le> \<lfloor>js_rem (of_int \<lfloor>t * real n\<rfloor>) (real n)\<rfloor>
     \<and> \<lfloor>js_rem (of_int \<lfloor>t * real n\<rfloor>) (real n)\<rfloor> < int n"
proof -
  have "0 \<le> t * real n" using assms by simp
  then have "(0::real) \<le> of_int \<lfloor>t * real n\<rfloor>" by simp
  from js_rem_range [OF this, of "real n"] assms
  have "0 \<le> js_rem (of_int \<lfloor>t * real n\<rfloor>) (real n)"
    "js_rem (of_int \<lfloor>t * real n\<rfloor>) (real n) < real n" by simp_all
  then show ?thesis by (simp add: floor_less_iff)
qed

lemma index_in_range:
  assumes "0 \<le> i" "i < int w" "0 \<le> j" "j < int h"
  shows "0 \<le> i + j * int w \<and> i + j * int w < int (w * h)"
proof -
  have "j + 1 \<le> int h" using assms by simp
  then have "(j + 1) * int w \<le> int h * int w" by (intro mult_right_mono) simp_all
  then have "i + j * int w < int h * int w" using assms by (simp add: algebra_simps)
  moreover have "0 \<le> j * int w" using assms by simp
  ultimately show ?thesis using assms by (simp add: mult.commute)
qed

text \<open>
  Claim C10. For a row of \<^verbatim>\<open>drawFloor\<close> whose world point passes the bounds check
  and whose tile has a floor texture (an image of positive size with its
  \<open>width * height\<close> colors), \<^verbatim>\<open>texture_x\<close> lies in \<open>[0, width)\<close>,
  \<^verbatim>\<open>texture_y\<close> in \<open>[0, height)\<close>, and the color read at
  \<open>texture_x + texture_y * width\<close> is defined: the row draws a pixel and does not
  throw. The last two hypotheses keep the two divisors of the floor distance away from
  zero.
\<close>

theorem floor_texture_sample_in_range:
  assumes "floorPoint d rayAngle y = (tilex, tiley)"
    and "\<not> floorOutOfBounds (tilemap d) \<lfloor>tilex\<rfloor> \<lfloor>tiley\<rfloor>"
    and "readTile (tilemap d) \<lfloor>tiley\<rfloor> \<lfloor>tilex\<rfloor> = Inr tile"
    and "floorTexture d tile = Some texture"
    and "imageLoaded texture"
    and "2 * y \<noteq> real (projection_height d)"
    and "cos (degreeToRadians (player_angle d) - degreeToRadians rayAngle) \<noteq> 0"
  shows "0 \<le> floorTextureX texture tilex
     \<and> floorTextureX texture tilex < int (tex_width texture)
     \<and> 0 \<le> floorTextureY texture tiley
     \<and> floorTextureY texture tiley < int (tex_height texture)
     \<and> (\<exists>px color. tex_data texture = Some px
          \<and> at_index px (floorTextureX texture tilex
                 + floorTextureY texture tiley * int (tex_width texture)) = Some color
          \<and> drawFloorRow d x1 rayAngle y buf = drawPixel d x1 y (Some color) buf)"
proof -
  from assms(5) obtain w h px where t: "texture = Image w h px"
    and w: "0 < w" and h: "0 < h" and l: "length px = w * h"
    by (auto simp: imageLoaded_def split: texture.splits)
  from assms(2) have "0 \<le> \<lfloor>tilex\<rfloor>" "0 \<le> \<lfloor>tiley\<rfloor>"
    by (simp_all add: floorOutOfBounds_def)
  then have p: "0 \<le> tilex" "0 \<le> tiley" by simp_all
  have x: "0 \<le> floorTextureX texture tilex \<and> floorTextureX texture tilex < int w"
    using floor_rem_range [OF p(1) w] by (simp add: floorTextureX_def t)
  have y: "0 \<le> floorTextureY texture tiley \<and> floorTextureY texture tiley < int h"
    using floor_rem_range [OF p(2) h] by (simp add: floorTextureY_def t)
  let ?i = "floorTextureX texture tilex + floorTextureY texture tiley * int w"
  have "0 \<le> ?i \<and> ?i < int (length px)"
    using index_in_range [of "floorTextureX texture tilex" w "floorTextureY texture tiley" h]
      x y l by simp
  then have a: "at_index px ?i = Some (px ! nat ?i)" by (simp add: at_index_def)
  have "drawFloorRow d x1 rayAngle y buf = drawPixel d x1 y (Some (px ! nat ?i)) buf"
    using assms(1-4) a by (simp add: drawFloorRow_def t)
  with x y a show ?thesis by (simp add: t)
qed

lemma d90: "degreeToRadians 90 = pi / 2"
  by (simp add: degreeToRadians_def)

lemma source_floor_point: "floorPoint sourceData 90 119 = (2, 178 / 59)"
  by (simp add: floorPoint_def floorDistanceFixed_def floorDistance_def sourceData_def d90)

theorem floor_texture_sample_in_range_witness:
  "floorPoint sourceData 90 119 = (2, 178 / 59)
   \<and> \<not> floorOutOfBounds (tilemap sourceData) \<lfloor>2 :: real\<rfloor> \<lfloor>178 / 59 :: real\<rfloor>
   \<and> floorTexture sourceData (Some 0) = Some (loaded 16 16)
   \<and> 0 \<le> floorTextureX (loaded 16 16) 2 \<and> floorTextureX (loaded 16 16) 2 < 16
   \<and> 0 \<le> floorTextureY (loaded 16 16) (178 / 59)
   \<and> floorTextureY (loaded 16 16) (178 / 59) < 16"
proof -
  have f: "\<lfloor>178 / 59 :: real\<rfloor> = 3" by (intro floor_is) simp_all
  have b: "\<not> floorOutOfBounds (tilemap sourceData) \<lfloor>2 :: real\<rfloor> \<lfloor>178 / 59 :: real\<rfloor>"
    unfolding f by (simp add: floorOutOfBounds_def sourceData_def sourceMap_def mapWidth_def)
  have r: "readTile (tilemap sourceData) \<lfloor>178 / 59 :: real\<rfloor> \<lfloor>2 :: real\<rfloor> = Inr (Some 0)"
    unfolding f by (simp add: readTile_def at_index_def sourceData_def sourceMap_def)
  have t: "floorTexture sourceData (Some 0) = Some (loaded 16 16)"
    by (simp add: floorTexture_def at_index_def sourceData_def)
  have i: "imageLoaded (loaded 16 16)"
    by (simp add: imageLoaded_def loaded_def)
  have z: "2 * 119 \<noteq> real (projection_height sourceData)"
    "cos (degreeToRadians (player_angle sourceData) - degreeToRadians 90) \<noteq> 0"
    by (simp_all add: sourceData_def)
  from floor_texture_sample_in_range [OF source_floor_point b r t i z] b t source_floor_point
  show ?thesis by (simp add: loaded_def)
qed

subsection \<open>The wall finder\<close>

lemma readTile_in_bounds:
  assumes "\<not> outOfBounds m x y"
  shows "\<exists>row. at_index m \<lfloor>y\<rfloor> = Some row \<and> readTile m \<lfloor>y\<rfloor> \<lfloor>x\<rfloor> = Inr (at_index row \<lfloor>x\<rfloor>)"
proof -
  from assms have "0 \<le> y" "y < real (length m)" by (simp_all add: outOfBounds_def)
  then have "0 \<le> \<lfloor>y\<rfloor>" "\<lfloor>y\<rfloor> < int (length m)" by (simp_all add: floor_less_iff)
  then show ?thesis by (simp add: readTile_def at_index_def)
qed

lemma wallFinder_continue:
  assumes "\<not> stops m (x + rc) (y + rs)"
  shows "wallFinder m rc rs x y = wallFinder m rc rs (x + rc) (y + rs)"
  using assms by (subst wallFinder.simps) (simp add: stops_def)

lemma wallFinder_stop:
  assumes "stops m (x + rc) (y + rs)"
  shows "\<exists>w. wallFinder m rc rs x y = Some (Inr (x + rc, y + rs, w)) \<and> w \<noteq> Some 0
     \<and> (if outOfBounds m (x + rc) (y + rs) then w = Some 1
         else readTile m \<lfloor>y + rs\<rfloor> \<lfloor>x + rc\<rfloor> = Inr w)"
proof (cases "outOfBounds m (x + rc) (y + rs)")
  case True
  then show ?thesis by (subst wallFinder.simps) simp
next
  case False
  from readTile_in_bounds [OF False] obtain w
    where r: "readTile m \<lfloor>y + rs\<rfloor> \<lfloor>x + rc\<rfloor> = Inr w" by blast
  with assms False have "w \<noteq> Some 0" by (simp add: stops_def)
  with False r show ?thesis by (subst wallFinder.simps) simp
qed

lemma wallFinder_run:
  assumes "\<forall>j. 0 < j \<and> j \<le> n \<longrightarrow> \<not> stops m (x + real j * rc) (y + real j * rs)"
  shows "wallFinder m rc rs x y = wallFinder m rc rs (x + real n * rc) (y + real n * rs)"
  using assms
proof (induction n)
  case 0
  show ?case by simp
next
  case (Suc n)
  then have "wallFinder m rc rs x y = wallFinder m rc rs (x + real n * rc) (y + real n * rs)"
    by simp
  also have "\<dots> = wallFinder m rc rs (x + real n * rc + rc) (y + real n * rs + rs)"
  proof (rule wallFinder_continue)
    from Suc.prems have "\<not> stops m (x + real (Suc n) * rc) (y + real (Suc n) * rs)"
      by blast
    then show "\<not> stops m (x + real n * rc + rc) (y + real n * rs + rs)"
      by (simp add: algebra_simps)
  qed
  finally show ?case by (simp add: algebra_simps)
qed

lemma leaves_interval:
  assumes "c \<noteq> (0::real)"
  shows "\<exists>k. v + real (Suc k) * c < 0 \<or> hi \<le> v + real (Suc k) * c"
proof (cases "0 < c")
  case True
  obtain k where "(hi - v) / c < real k" using reals_Archimedean2 by blast
  then have "hi - v < real k * c" using True by (simp add: pos_divide_less_eq)
  then have "hi \<le> v + real (Suc k) * c" using True by (simp add: algebra_simps)
  then show ?thesis by blast
next
  case False
  with assms have neg: "c < 0" by simp
  define c' where "c' = - c"
  have pos: "0 < c'" using neg by (simp add: c'_def)
  obtain k where "v / c' < real k" using reals_Archimedean2 by blast
  then have "v < real k * c'" using pos by (simp add: pos_divide_less_eq)
  then have "v + real (Suc k) * c < 0" using pos by (simp add: algebra_simps c'_def)
  then show ?thesis by blast
qed

lemma ray_leaves_map:
  assumes "rc \<noteq> 0 \<or> rs \<noteq> 0"
  shows "\<exists>k. outOfBounds m (x + real (Suc k) * rc) (y + real (Suc k) * rs)"
proof (cases "rc \<noteq> 0")
  case True
  from leaves_interval [OF True, of x "real (mapWidth m)"] show ?thesis
    by (auto simp: outOfBounds_def)
next
  case False
  with assms have "rs \<noteq> 0" by simp
  from leaves_interval [OF this, of y "real (length m)"] show ?thesis
    by (auto simp: outOfBounds_def)
qed

lemma wallFinder_first_stop:
  assumes "1 / 2 ^ 21 \<le> max \<bar>rc\<bar> \<bar>rs\<bar>"
  shows "\<exists>n w. wallFinder m rc rs x y
        = Some (Inr (x + real (Suc n) * rc, y + real (Suc n) * rs, w))
     \<and> w \<noteq> Some 0
     \<and> (\<forall>j. 0 < j \<and> j \<le> n \<longrightarrow> \<not> stops m (x + real j * rc) (y + real j * rs))
     \<and> (if outOfBounds m (x + real (Suc n) * rc) (y + real (Suc n) * rs) then w = Some 1
         else readTile m \<lfloor>y + real (Suc n) * rs\<rfloor> \<lfloor>x + real (Suc n) * rc\<rfloor> = Inr w)"
proof -
  let ?S = "\<lambda>k. stops m (x + real (Suc k) * rc) (y + real (Suc k) * rs)"
  have "(0::real) < 1 / 2 ^ 21" by simp
  with assms have "0 < max \<bar>rc\<bar> \<bar>rs\<bar>" by linarith
  then have nz: "rc \<noteq> 0 \<or> rs \<noteq> 0" by auto
  from ray_leaves_map [OF nz, of m x y] obtain k0
    where "outOfBounds m (x + real (Suc k0) * rc) (y + real (Suc k0) * rs)" by blast
  then have "?S k0" by (simp add: stops_def)
  define n where "n = (LEAST k. ?S k)"
  have sn: "?S n" unfolding n_def using \<open>?S k0\<close> by (rule LeastI)
  have before: "\<not> ?S k" if "k < n" for k
    using that not_less_Least unfolding n_def by blast
  have run: "\<forall>j. 0 < j \<and> j \<le> n \<longrightarrow> \<not> stops m (x + real j * rc) (y + real j * rs)"
  proof (intro allI impI)
    fix j assume "0 < j \<and> j \<le> n"
    then obtain k where "j = Suc k" "k < n" by (cases j) auto
    with before show "\<not> stops m (x + real j * rc) (y + real j * rs)" by simp
  qed
  have e: "x + real n * rc + rc = x + real (Suc n) * rc"
    "y + real n * rs + rs = y + real (Suc n) * rs"
    by (simp_all add: algebra_simps)
  from sn have "stops m (x + real n * rc + rc) (y + real n * rs + rs)"
    by (simp add: algebra_simps)
  from wallFinder_stop [OF this] obtain w
    where w: "wallFinder m rc rs (x + real n * rc) (y + real n * rs)
        = Some (Inr (x + real n * rc + rc, y + real n * rs + rs, w))"
      "w \<noteq> Some 0"
      "if outOfBounds m (x + real n * rc + rc) (y + real n * rs + rs) then w = Some 1
       else readTile m \<lfloor>y + real n * rs + rs\<rfloor> \<lfloor>x + real n * rc + rc\<rfloor> = Inr w"
    by blast
  have "wallFinder m rc rs x y
      = Some (Inr (x + real (Suc n) * rc, y + real (Suc n) * rs, w))"
    using wallFinder_run [OF run] w(1) unfolding e by simp
  moreover have "if outOfBounds m (x + real (Suc n) * rc) (y + real (Suc n) * rs)
      then w = Some 1
      else readTile m \<lfloor>y + real (Suc n) * rs\<rfloor> \<lfloor>x + real (Suc n) * rc\<rfloor> = Inr w"
    using w(3) unfolding e .
  ultimately show ?thesis using w(2) run by blast
qed

lemma in_bounds_tile:
  assumes "rectangular m" "\<not> outOfBounds m x y"
  shows "nat \<lfloor>y\<rfloor> < length m \<and> nat \<lfloor>x\<rfloor> < length (m ! nat \<lfloor>y\<rfloor>)
     \<and> length (m ! nat \<lfloor>y\<rfloor>) = mapWidth m
     \<and> 0 \<le> \<lfloor>x\<rfloor> \<and> 0 \<le> \<lfloor>y\<rfloor>
     \<and> readTile m \<lfloor>y\<rfloor> \<lfloor>x\<rfloor> = Inr (Some (m ! nat \<lfloor>y\<rfloor> ! nat \<lfloor>x\<rfloor>))"
proof -
  from assms(2) have b: "0 \<le> y" "y < real (length m)" "0 \<le> x" "x < real (mapWidth m)"
    by (simp_all add: outOfBounds_def)
  then have i: "0 \<le> \<lfloor>y\<rfloor>" "\<lfloor>y\<rfloor> < int (length m)" "0 \<le> \<lfloor>x\<rfloor>" "\<lfloor>x\<rfloor> < int (mapWidth m)"
    by (simp_all add: floor_less_iff)
  then have r: "nat \<lfloor>y\<rfloor> < length m" by linarith
  with assms(1) have l: "length (m ! nat \<lfloor>y\<rfloor>) = mapWidth m"
    by (simp add: rectangular_def list_all_length)
  have c: "nat \<lfloor>x\<rfloor> < mapWidth m" using i by linarith
  from i r l c show ?thesis by (simp add: readTile_def at_index_def)
qed

lemma zero_tile_interior:
  assumes "enclosed m" "rectangular m" "\<not> outOfBounds m x y"
    and "readTile m \<lfloor>y\<rfloor> \<lfloor>x\<rfloor> = Inr (Some 0)"
  shows "interior m x y"
proof -
  let ?i = "nat \<lfloor>y\<rfloor>" and ?j = "nat \<lfloor>x\<rfloor>"
  from in_bounds_tile [OF assms(2,3)] assms(4)
  have i: "?i < length m" and j: "?j < length (m ! ?i)" and l: "length (m ! ?i) = mapWidth m"
    and nn: "0 \<le> \<lfloor>x\<rfloor>" "0 \<le> \<lfloor>y\<rfloor>" and z: "m ! ?i ! ?j = 0"
    by simp_all
  from assms(1) have ne: "m \<noteq> []" and top: "list_all (\<lambda>t. t \<noteq> 0) (hd m)"
    and bot: "list_all (\<lambda>t. t \<noteq> 0) (last m)"
    and side: "list_all (\<lambda>row. row \<noteq> [] \<and> hd row \<noteq> 0 \<and> last row \<noteq> 0) m"
    by (simp_all add: enclosed_def)
  have i0: "?i \<noteq> 0"
  proof
    assume "?i = 0"
    with ne have "m ! ?i = hd m" by (simp add: hd_conv_nth)
    with top j have "m ! ?i ! ?j \<noteq> 0" by (simp add: list_all_length)
    with z show False by simp
  qed
  have i1: "?i \<noteq> length m - 1"
  proof
    assume "?i = length m - 1"
    with ne have "m ! ?i = last m" by (simp add: last_conv_nth)
    with bot j have "m ! ?i ! ?j \<noteq> 0" by (simp add: list_all_length)
    with z show False by simp
  qed
  from side i have row: "m ! ?i \<noteq> []" "hd (m ! ?i) \<noteq> 0" "last (m ! ?i) \<noteq> 0"
    by (simp_all add: list_all_length)
  have j0: "?j \<noteq> 0"
  proof
    assume "?j = 0"
    with row(1) have "m ! ?i ! ?j = hd (m ! ?i)" by (simp add: hd_conv_nth)
    with row(2) z show False by simp
  qed
  have j1: "?j \<noteq> mapWidth m - 1"
  proof
    assume "?j = mapWidth m - 1"
    with row(1) l have "m ! ?i ! ?j = last (m ! ?i)" by (simp add: last_conv_nth)
    with row(3) z show False by simp
  qed
  from i0 nn have y1: "1 \<le> \<lfloor>y\<rfloor>" by linarith
  from i i1 nn have y2: "\<lfloor>y\<rfloor> + 1 < int (length m)" by linarith
  from j0 nn have x1: "1 \<le> \<lfloor>x\<rfloor>" by linarith
  from j j1 l nn have x2: "\<lfloor>x\<rfloor> + 1 < int (mapWidth m)" by linarith
  have "1 \<le> y" "1 \<le> x" using y1 x1 by linarith+
  moreover have "y < real (length m) - 1"
  proof -
    have "y < of_int \<lfloor>y\<rfloor> + 1" by linarith
    also have "\<dots> \<le> real (length m) - 1" using y2 by linarith
    finally show ?thesis .
  qed
  moreover have "x < real (mapWidth m) - 1"
  proof -
    have "x < of_int \<lfloor>x\<rfloor> + 1" by linarith
    also have "\<dots> \<le> real (mapWidth m) - 1" using x2 by linarith
    finally show ?thesis .
  qed
  ultimately show ?thesis by (simp add: interior_def)
qed

lemma step_from_interior:
  assumes "interior m x y" "\<bar>rc\<bar> \<le> 1" "\<bar>rs\<bar> \<le> 1"
  shows "\<not> outOfBounds m (x + rc) (y + rs)"
  using assms by (auto simp: interior_def outOfBounds_def)

lemma samples_stay_interior:
  assumes "enclosed m" "rectangular m" "interior m x y" "\<bar>rc\<bar> \<le> 1" "\<bar>rs\<bar> \<le> 1"
    and "\<forall>j. 0 < j \<and> j \<le> n \<longrightarrow> \<not> stops m (x + real j * rc) (y + real j * rs)"
  shows "interior m (x + real n * rc) (y + real n * rs)"
  using assms(6)
proof (induction n)
  case 0
  show ?case using assms(3) by simp
next
  case (Suc n)
  then have ih: "interior m (x + real n * rc) (y + real n * rs)" by simp
  have e: "x + real n * rc + rc = x + real (Suc n) * rc"
    "y + real n * rs + rs = y + real (Suc n) * rs"
    by (simp_all add: algebra_simps)
  from step_from_interior [OF ih assms(4,5)]
  have b: "\<not> outOfBounds m (x + real (Suc n) * rc) (y + real (Suc n) * rs)"
    unfolding e .
  from Suc.prems have "\<not> stops m (x + real (Suc n) * rc) (y + real (Suc n) * rs)"
    by blast
  with b have "readTile m \<lfloor>y + real (Suc n) * rs\<rfloor> \<lfloor>x + real (Suc n) * rc\<rfloor> = Inr (Some 0)"
    by (simp add: stops_def)
  from zero_tile_interior [OF assms(1,2) b this] show ?case .
qed

lemma enclosed_hit:
  assumes "enclosed m" "rectangular m" "interior m x y" "\<bar>rc\<bar> \<le> 1" "\<bar>rs\<bar> \<le> 1"
    and "\<forall>j. 0 < j \<and> j \<le> n \<longrightarrow> \<not> stops m (x + real j * rc) (y + real j * rs)"
    and "if outOfBounds m (x + real (Suc n) * rc) (y + real (Suc n) * rs) then w = Some 1
         else readTile m \<lfloor>y + real (Suc n) * rs\<rfloor> \<lfloor>x + real (Suc n) * rc\<rfloor> = Inr w"
  shows "\<not> outOfBounds m (x + real (Suc n) * rc) (y + real (Suc n) * rs)
     \<and> w = Some (m ! nat \<lfloor>y + real (Suc n) * rs\<rfloor> ! nat \<lfloor>x + real (Suc n) * rc\<rfloor>)"
proof -
  have e: "x + real n * rc + rc = x + real (Suc n) * rc"
    "y + real n * rs + rs = y + real (Suc n) * rs"
    by (simp_all add: algebra_simps)
  from step_from_interior [OF samples_stay_interior [OF assms(1-6)] assms(4,5)]
  have b: "\<not> outOfBounds m (x + real (Suc n) * rc) (y + real (Suc n) * rs)"
    unfolding e .
  with assms(7) in_bounds_tile [OF assms(2) b] show ?thesis by simp
qed

subsection \<open>The values of a column\<close>

lemma rayAngleAt_eq:
  "rayAngleAt d k = player_angle d - player_halfFov d + real k * incrementAngle d"
  by (induction k) (simp_all add: algebra_simps)

lemma column_angle_range:
  assumes "0 < player_fov d" "player_fov d < 180" "k < projection_width d"
  shows "- 90 < rayAngleAt d k - player_angle d \<and> rayAngleAt d k - player_angle d < 90"
proof -
  let ?W = "real (projection_width d)"
  have W: "0 < ?W" using assms(3) by simp
  have "real k < ?W" using assms(3) by simp
  then have "real k / ?W < 1" using W by simp
  then have "real k / ?W * player_fov d < 1 * player_fov d"
    using assms(1) by (intro mult_strict_right_mono) simp_all
  then have hi: "real k * incrementAngle d < player_fov d"
    by (simp add: incrementAngle_def)
  have lo: "0 \<le> real k * incrementAngle d"
    using assms(1) by (simp add: incrementAngle_def)
  show ?thesis
    using hi lo assms(1,2) by (simp add: rayAngleAt_eq player_halfFov_def)
qed

lemma cos_degrees_pos:
  assumes "- 90 < a" "a < 90"
  shows "0 < cos (degreeToRadians a)"
proof (rule cos_gt_zero_pi)
  have u: "0 < pi / 180" by simp
  have "(- 90) * (pi / 180) < a * (pi / 180)"
    using assms(1) u by (intro mult_strict_right_mono)
  then show "- (pi / 2) < degreeToRadians a" by (simp add: degreeToRadians_def)
  have "a * (pi / 180) < 90 * (pi / 180)"
    using assms(2) u by (intro mult_strict_right_mono)
  then show "degreeToRadians a < pi / 2" by (simp add: degreeToRadians_def)
qed

lemma step_length:
  fixes t :: real
  assumes "0 < p"
  shows "sqrt ((x - (x + real n * (cos t / p)))\<^sup>2 + (y - (y + real n * (sin t / p)))\<^sup>2)
     = real n / p"
proof -
  have c: "real n * (cos t / p) = real n / p * cos t"
    and s: "real n * (sin t / p) = real n / p * sin t" by simp_all
  have "(x - (x + real n * (cos t / p)))\<^sup>2 + (y - (y + real n * (sin t / p)))\<^sup>2
      = (real n / p * cos t)\<^sup>2 + (real n / p * sin t)\<^sup>2"
    unfolding c s by simp
  also have "\<dots> = (real n / p)\<^sup>2 * ((cos t)\<^sup>2 + (sin t)\<^sup>2)"
    by (simp only: power_mult_distrib distrib_left)
  also have "\<dots> = (real n / p)\<^sup>2" by simp
  finally show ?thesis using assms by simp
qed

lemma step_large:
  fixes t :: real
  assumes "0 < p" "p \<le> 2 ^ 20"
  shows "1 / 2 ^ 21 \<le> max \<bar>cos t / p\<bar> \<bar>sin t / p\<bar>"
proof -
  have h: "1 / 2 \<le> max \<bar>cos t\<bar> \<bar>sin t\<bar>"
  proof (rule ccontr)
    assume "\<not> 1 / 2 \<le> max \<bar>cos t\<bar> \<bar>sin t\<bar>"
    then have c: "\<bar>cos t\<bar> < 1 / 2" and s: "\<bar>sin t\<bar> < 1 / 2" by simp_all
    have "\<bar>cos t\<bar> * \<bar>cos t\<bar> < 1 / 2 * (1 / 2)"
      using c by (intro mult_strict_mono') simp_all
    moreover have "\<bar>sin t\<bar> * \<bar>sin t\<bar> < 1 / 2 * (1 / 2)"
      using s by (intro mult_strict_mono') simp_all
    ultimately have "cos t * cos t + sin t * sin t < 1 / 2"
      by (simp only: abs_mult_self_eq)
    then show False by (simp only: sin_cos_squared_add3)
  qed
  have m: "max \<bar>cos t / p\<bar> \<bar>sin t / p\<bar> = max \<bar>cos t\<bar> \<bar>sin t\<bar> / p"
    using assms(1) by (simp add: max_def divide_le_cancel)
  have "1 / 2 ^ 21 = (1 / 2) / (2 ^ 20 :: real)" by simp
  also have "\<dots> \<le> (1 / 2) / p"
    using assms by (intro divide_left_mono) simp_all
  also have "\<dots> \<le> max \<bar>cos t\<bar> \<bar>sin t\<bar> / p"
    using h assms(1) by (intro divide_right_mono) simp_all
  finally show ?thesis unfolding m .
qed

lemma step_small:
  fixes t :: real
  assumes "1 \<le> p"
  shows "\<bar>cos t / p\<bar> \<le> 1 \<and> \<bar>sin t / p\<bar> \<le> 1"
proof -
  have "\<bar>cos t\<bar> \<le> 1" "\<bar>sin t\<bar> \<le> 1"
    by (rule abs_cos_le_one, rule abs_sin_le_one)
  moreover have "\<bar>cos t / p\<bar> = \<bar>cos t\<bar> / p" "\<bar>sin t / p\<bar> = \<bar>sin t\<bar> / p"
    using assms by simp_all
  moreover have "\<bar>cos t\<bar> / p \<le> \<bar>cos t\<bar>" "\<bar>sin t\<bar> / p \<le> \<bar>sin t\<bar>"
    using assms by (simp_all add: divide_le_eq mult_le_cancel_left1)
  ultimately show ?thesis by linarith
qed

text \<open>What the wall finder of a column returns.\<close>

lemma column_wall:
  assumes "steady d"
  shows "\<exists>n wall. wallFinder (tilemap d) (cos (degreeToRadians a) / precision d)
          (sin (degreeToRadians a) / precision d) (player_x d) (player_y d)
        = Some (Inr (player_x d + real (Suc n) * (cos (degreeToRadians a) / precision d),
              player_y d + real (Suc n) * (sin (degreeToRadians a) / precision d), wall))
     \<and> (enclosed (tilemap d) \<and> rectangular (tilemap d)
          \<and> interior (tilemap d) (player_x d) (player_y d) \<and> 1 \<le> precision d
        \<longrightarrow> \<not> outOfBounds (tilemap d)
              (player_x d + real (Suc n) * (cos (degreeToRadians a) / precision d))
              (player_y d + real (Suc n) * (sin (degreeToRadians a) / precision d))
          \<and> (\<exists>t. wall = Some t \<and> 0 < t
                \<and> (\<exists>row. row \<in> set (tilemap d) \<and> t \<in> set row)))"
proof -
  let ?rc = "cos (degreeToRadians a) / precision d"
  let ?rs = "sin (degreeToRadians a) / precision d"
  let ?m = "tilemap d"
  from assms have p: "0 < precision d" "precision d \<le> 2 ^ 20"
    by (simp_all add: steady_def)
  from wallFinder_first_stop [OF step_large [OF p], of ?m "degreeToRadians a"
      "player_x d" "player_y d"]
  obtain n w where r: "wallFinder ?m ?rc ?rs (player_x d) (player_y d)
        = Some (Inr (player_x d + real (Suc n) * ?rc, player_y d + real (Suc n) * ?rs, w))"
    and nz: "w \<noteq> Some 0"
    and run: "\<forall>j. 0 < j \<and> j \<le> n
        \<longrightarrow> \<not> stops ?m (player_x d + real j * ?rc) (player_y d + real j * ?rs)"
    and fin: "if outOfBounds ?m (player_x d + real (Suc n) * ?rc)
          (player_y d + real (Suc n) * ?rs) then w = Some 1
        else readTile ?m \<lfloor>player_y d + real (Suc n) * ?rs\<rfloor>
          \<lfloor>player_x d + real (Suc n) * ?rc\<rfloor> = Inr w"
    by blast
  have "\<not> outOfBounds ?m (player_x d + real (Suc n) * ?rc) (player_y d + real (Suc n) * ?rs)
      \<and> (\<exists>t. w = Some t \<and> 0 < t \<and> (\<exists>row. row \<in> set ?m \<and> t \<in> set row))"
    if e: "enclosed ?m" and re: "rectangular ?m"
      and i: "interior ?m (player_x d) (player_y d)" and p: "1 \<le> precision d"
  proof -
    from step_small [OF p, of "degreeToRadians a"]
    have s: "\<bar>?rc\<bar> \<le> 1" "\<bar>?rs\<bar> \<le> 1" by simp_all
    from enclosed_hit [OF e re i s run fin]
    have b: "\<not> outOfBounds ?m (player_x d + real (Suc n) * ?rc)
        (player_y d + real (Suc n) * ?rs)"
      and w: "w = Some (?m ! nat \<lfloor>player_y d + real (Suc n) * ?rs\<rfloor>
          ! nat \<lfloor>player_x d + real (Suc n) * ?rc\<rfloor>)"
      by simp_all
    from in_bounds_tile [OF re b]
    have "?m ! nat \<lfloor>player_y d + real (Suc n) * ?rs\<rfloor> \<in> set ?m"
      "?m ! nat \<lfloor>player_y d + real (Suc n) * ?rs\<rfloor>
          ! nat \<lfloor>player_x d + real (Suc n) * ?rc\<rfloor>
        \<in> set (?m ! nat \<lfloor>player_y d + real (Suc n) * ?rs\<rfloor>)"
      by simp_all
    with b w nz show ?thesis by auto
  qed
  with r show ?thesis by blast
qed

lemma castRay_hit:
  assumes "castRay d rayCount rayAngle = Some (Inr hit)"
  shows "wallFinder (tilemap d) (cos (degreeToRadians rayAngle) / precision d)
          (sin (degreeToRadians rayAngle) / precision d) (player_x d) (player_y d)
        = Some (Inr (hit_x hit, hit_y hit, Some (hit_wall hit)))
     \<and> at_index (textures d) (int (hit_wall hit) - 1) = Some (hit_texture hit)
     \<and> hit_rayCount hit = rayCount \<and> hit_rayAngle hit = rayAngle
     \<and> hit_rawDistance hit
         = sqrt ((player_x d - hit_x hit)\<^sup>2 + (player_y d - hit_y hit)\<^sup>2)
     \<and> hit_distance hit
         = hit_rawDistance hit * cos (degreeToRadians (rayAngle - player_angle d))
     \<and> hit_wallHeight hit = \<lfloor>projection_halfHeight d / hit_distance hit\<rfloor>
     \<and> hit_texturePositionX hit
         = texturePositionX (hit_texture hit) (hit_x hit) (hit_y hit)"
  using assms
  by (auto simp: castRay_def Let_def split: option.splits sum.splits prod.splits)

lemma castRay_of_wall:
  assumes "wallFinder (tilemap d) (cos (degreeToRadians rayAngle) / precision d)
          (sin (degreeToRadians rayAngle) / precision d) (player_x d) (player_y d)
        = Some (Inr (hx, hy, Some w))"
    and "at_index (textures d) (int w - 1) = Some texture"
  shows "castRay d rayCount rayAngle
     = Some (Inr \<lparr>hit_rayCount = rayCount, hit_rayAngle = rayAngle, hit_wall = w,
          hit_x = hx, hit_y = hy,
          hit_rawDistance = sqrt ((player_x d - hx)\<^sup>2 + (player_y d - hy)\<^sup>2),
          hit_distance = sqrt ((player_x d - hx)\<^sup>2 + (player_y d - hy)\<^sup>2)
            * cos (degreeToRadians (rayAngle - player_angle d)),
          hit_wallHeight = \<lfloor>projection_halfHeight d
            / (sqrt ((player_x d - hx)\<^sup>2 + (player_y d - hy)\<^sup>2)
                * cos (degreeToRadians (rayAngle - player_angle d)))\<rfloor>,
          hit_texture = texture, hit_texturePositionX = texturePositionX texture hx hy\<rparr>)"
  using assms by (simp add: castRay_def Let_def)

lemma castRay_returns:
  assumes "steady d"
  shows "\<exists>r. castRay d rayCount rayAngle = Some r"
proof -
  from column_wall [OF assms, of rayAngle] obtain n wall
    where "wallFinder (tilemap d) (cos (degreeToRadians rayAngle) / precision d)
          (sin (degreeToRadians rayAngle) / precision d) (player_x d) (player_y d)
        = Some (Inr (player_x d + real (Suc n) * (cos (degreeToRadians rayAngle) / precision d),
              player_y d + real (Suc n) * (sin (degreeToRadians rayAngle) / precision d), wall))"
    by blast
  then show ?thesis
    by (simp add: castRay_def Let_def split: option.splits)
qed

text \<open>The column 80 of the source: the ray runs from (2, 2) up the third map column.\<close>

lemma source_column_tiles:
  assumes "0 < j" "j \<le> 447"
  shows "\<not> stops sourceMap (2 + real j * 0) (2 + real j * (1 / 64))"
proof -
  let ?y = "2 + real j * (1 / 64)"
  have lo: "2 \<le> ?y" by simp
  have "real j \<le> 447" using assms(2) by simp
  then have hi: "?y < 9" by simp
  have fl: "2 \<le> \<lfloor>?y\<rfloor>" "\<lfloor>?y\<rfloor> < 9" using lo hi by linarith+
  then consider "\<lfloor>?y\<rfloor> = 2" | "\<lfloor>?y\<rfloor> = 3" | "\<lfloor>?y\<rfloor> = 4" | "\<lfloor>?y\<rfloor> = 5" | "\<lfloor>?y\<rfloor> = 6"
    | "\<lfloor>?y\<rfloor> = 7" | "\<lfloor>?y\<rfloor> = 8" by linarith
  then have t: "readTile sourceMap \<lfloor>?y\<rfloor> 2 = Inr (Some 0)"
    by cases (simp_all add: readTile_def at_index_def sourceMap_def)
  have b: "\<not> outOfBounds sourceMap 2 ?y"
    using lo hi by (simp add: outOfBounds_def sourceMap_def mapWidth_def)
  from t b show ?thesis by (simp add: stops_def)
qed

lemma source_wall_80:
  "wallFinder sourceMap 0 (1 / 64) 2 2 = Some (Inr (2, 9, Some 2))"
proof -
  have "\<forall>j. 0 < j \<and> j \<le> 447 \<longrightarrow> \<not> stops sourceMap (2 + real j * 0) (2 + real j * (1 / 64))"
    using source_column_tiles by blast
  from wallFinder_run [OF this]
  have "wallFinder sourceMap 0 (1 / 64) 2 2
      = wallFinder sourceMap 0 (1 / 64) 2 (2 + 447 * (1 / 64))" by simp
  also have "\<dots> = Some (Inr (2, 9, Some 2))"
    by (subst wallFinder.simps)
      (simp add: outOfBounds_def sourceMap_def mapWidth_def readTile_def at_index_def)
  finally show ?thesis .
qed

lemma source_castRay_80: "castRay sourceData 80 90 = Some (Inr centerHit)"
proof -
  have w: "wallFinder (tilemap sourceData) (cos (degreeToRadians 90) / precision sourceData)
      (sin (degreeToRadians 90) / precision sourceData) (player_x sourceData)
      (player_y sourceData) = Some (Inr (2, 9, Some 2))"
    using source_wall_80 by (simp add: d90 sourceData_def)
  have t: "at_index (textures sourceData) (int 2 - 1) = Some (loaded 16 16)"
    by (simp add: at_index_def sourceData_def)
  have f: "\<lfloor>60 / 7 :: real\<rfloor> = 8" by (intro floor_is) simp_all
  have x: "texturePositionX (loaded 16 16) 2 9 = 0"
    by (simp add: texturePositionX_def loaded_def js_rem_def js_trunc_def)
  show ?thesis
    unfolding castRay_of_wall [OF w t]
    by (simp add: centerHit_def sourceData_def projection_halfHeight_def
        degreeToRadians_def f x)
qed

lemma source_angle_80: "rayAngleAt sourceData 80 = 90"
  by (simp add: rayAngleAt_eq sourceData_def player_halfFov_def incrementAngle_def)

lemma sqrt3_bounds: "172 / 100 < sqrt 3 \<and> sqrt 3 < 1739 / 1000"
proof
  show "172 / 100 < sqrt 3" by (rule real_less_rsqrt) (simp add: power2_eq_square)
  show "sqrt 3 < 1739 / 1000" by (rule real_less_lsqrt) (simp_all add: power2_eq_square)
qed

lemma source_steady: "steady sourceData"
  by (simp add: steady_def sourceData_def sourceMap_def mapWidth_def)

lemma source_map_enclosed:
  "enclosed (tilemap sourceData) \<and> rectangular (tilemap sourceData)
   \<and> interior (tilemap sourceData) (player_x sourceData) (player_y sourceData)
   \<and> 1 \<le> precision sourceData"
  by (simp add: enclosed_def rectangular_def interior_def sourceData_def sourceMap_def
      mapWidth_def)

text \<open>
  Claim C1. The player is strictly inside a rectangular map enclosed by non-zero tiles
  whose ids have wall textures, and the configuration is within the bounds of
  \<open>steady\<close>. Then in every column \<open>rayCount < projectionWidth\<close> the wall finder ends,
  after a number \<open>n + 1\<close> of steps, inside the map on a non-zero tile; the larger
  component of the step is at least \<open>1 / 2 ^ 21\<close>; the column has the values of that
  hit, with the raw distance \<open>(n + 1) / precision\<close>, and its distance after the fish eye
  fix is greater than 0.
\<close>

theorem wall_finder_terminates:
  assumes "steady d" and "enclosed (tilemap d)" and "rectangular (tilemap d)"
    and "interior (tilemap d) (player_x d) (player_y d)"
    and "list_all (list_all (\<lambda>t. t \<le> length (textures d))) (tilemap d)"
    and "rayCount < projection_width d"
  shows "\<exists>hit n.
       castRay d rayCount (rayAngleAt d rayCount) = Some (Inr hit)
     \<and> wallFinder (tilemap d) (cos (degreeToRadians (rayAngleAt d rayCount)) / precision d)
           (sin (degreeToRadians (rayAngleAt d rayCount)) / precision d)
           (player_x d) (player_y d)
         = Some (Inr (hit_x hit, hit_y hit, Some (hit_wall hit)))
     \<and> hit_x hit = player_x d
           + real (Suc n) * (cos (degreeToRadians (rayAngleAt d rayCount)) / precision d)
     \<and> hit_y hit = player_y d
           + real (Suc n) * (sin (degreeToRadians (rayAngleAt d rayCount)) / precision d)
     \<and> 1 / 2 ^ 21 \<le> max \<bar>cos (degreeToRadians (rayAngleAt d rayCount)) / precision d\<bar>
           \<bar>sin (degreeToRadians (rayAngleAt d rayCount)) / precision d\<bar>
     \<and> \<not> outOfBounds (tilemap d) (hit_x hit) (hit_y hit) \<and> 0 < hit_wall hit
     \<and> hit_rawDistance hit = real (Suc n) / precision d
     \<and> hit_distance hit = real (Suc n) / precision d
           * cos (degreeToRadians (rayAngleAt d rayCount - player_angle d))
     \<and> 0 < hit_distance hit"
proof -
  let ?a = "rayAngleAt d rayCount"
  let ?rc = "cos (degreeToRadians ?a) / precision d"
  let ?rs = "sin (degreeToRadians ?a) / precision d"
  from assms(1) have p: "0 < precision d" "precision d \<le> 2 ^ 20" "1 \<le> precision d"
    and fov: "0 < player_fov d" "player_fov d < 180"
    by (simp_all add: steady_def)
  from column_wall [OF assms(1), of ?a] assms(2-4) p(3) obtain n t row
    where w: "wallFinder (tilemap d) ?rc ?rs (player_x d) (player_y d)
        = Some (Inr (player_x d + real (Suc n) * ?rc, player_y d + real (Suc n) * ?rs, Some t))"
      and b: "\<not> outOfBounds (tilemap d) (player_x d + real (Suc n) * ?rc)
          (player_y d + real (Suc n) * ?rs)"
      and t: "0 < t" "row \<in> set (tilemap d)" "t \<in> set row"
    by blast
  let ?hx = "player_x d + real (Suc n) * ?rc" and ?hy = "player_y d + real (Suc n) * ?rs"
  from assms(5) t have "t \<le> length (textures d)" by (auto simp: list_all_iff)
  with t(1) have tx: "at_index (textures d) (int t - 1) = Some (textures d ! nat (int t - 1))"
    by (simp add: at_index_def)
  note c = castRay_of_wall [OF w tx, of rayCount]
  have raw: "sqrt ((player_x d - ?hx)\<^sup>2 + (player_y d - ?hy)\<^sup>2) = real (Suc n) / precision d"
    by (rule step_length [OF p(1)])
  have "0 < real (Suc n) / precision d" using p(1) by simp
  moreover have "0 < cos (degreeToRadians (?a - player_angle d))"
    using column_angle_range [OF fov assms(6)] by (intro cos_degrees_pos) simp_all
  ultimately have pos: "0 < real (Suc n) / precision d
      * cos (degreeToRadians (?a - player_angle d))"
    by (rule mult_pos_pos)
  note l = step_large [OF p(1,2), of "degreeToRadians ?a"]
  define hit where "hit = \<lparr>hit_rayCount = rayCount, hit_rayAngle = ?a, hit_wall = t,
      hit_x = ?hx, hit_y = ?hy, hit_rawDistance = real (Suc n) / precision d,
      hit_distance = real (Suc n) / precision d
        * cos (degreeToRadians (?a - player_angle d)),
      hit_wallHeight = \<lfloor>projection_halfHeight d
        / (real (Suc n) / precision d * cos (degreeToRadians (?a - player_angle d)))\<rfloor>,
      hit_texture = textures d ! nat (int t - 1),
      hit_texturePositionX = texturePositionX (textures d ! nat (int t - 1)) ?hx ?hy\<rparr>"
  have h: "castRay d rayCount ?a = Some (Inr hit)"
    unfolding c raw hit_def by (rule refl)
  have v: "hit_x hit = ?hx" "hit_y hit = ?hy" "hit_wall hit = t"
    "hit_rawDistance hit = real (Suc n) / precision d"
    "hit_distance hit = real (Suc n) / precision d
       * cos (degreeToRadians (?a - player_angle d))"
    by (simp_all add: hit_def)
  have "castRay d rayCount ?a = Some (Inr hit)
     \<and> wallFinder (tilemap d) ?rc ?rs (player_x d) (player_y d)
         = Some (Inr (hit_x hit, hit_y hit, Some (hit_wall hit)))
     \<and> hit_x hit = ?hx \<and> hit_y hit = ?hy
     \<and> 1 / 2 ^ 21 \<le> max \<bar>?rc\<bar> \<bar>?rs\<bar>
     \<and> \<not> outOfBounds (tilemap d) (hit_x hit) (hit_y hit) \<and> 0 < hit_wall hit
     \<and> hit_rawDistance hit = real (Suc n) / precision d
     \<and> hit_distance hit = real (Suc n) / precision d
           * cos (degreeToRadians (?a - player_angle d))
     \<and> 0 < hit_distance hit"
    unfolding v using h w b t(1) pos l by simp
  then show ?thesis by blast
qed

theorem wall_finder_terminates_witness:
  "steady sourceData \<and> enclosed (tilemap sourceData) \<and> rectangular (tilemap sourceData)
   \<and> interior (tilemap sourceData) (player_x sourceData) (player_y sourceData)
   \<and> castRay sourceData 80 (rayAngleAt sourceData 80) = Some (Inr centerHit)
   \<and> wallFinder (tilemap sourceData)
         (cos (degreeToRadians (rayAngleAt sourceData 80)) / precision sourceData)
         (sin (degreeToRadians (rayAngleAt sourceData 80)) / precision sourceData)
         (player_x sourceData) (player_y sourceData)
       = Some (Inr (2, 9, Some 2))
   \<and> \<not> outOfBounds (tilemap sourceData) 2 9
   \<and> hit_rawDistance centerHit = 448 / 64
   \<and> hit_distance centerHit = 7 \<and> 0 < hit_distance centerHit"
proof -
  have h: "list_all (list_all (\<lambda>t. t \<le> length (textures sourceData))) (tilemap sourceData)"
    "80 < projection_width sourceData"
    by (simp_all add: sourceData_def sourceMap_def)
  have m: "enclosed (tilemap sourceData)" "rectangular (tilemap sourceData)"
    "interior (tilemap sourceData) (player_x sourceData) (player_y sourceData)"
    using source_map_enclosed by simp_all
  have c: "castRay sourceData 80 (rayAngleAt sourceData 80) = Some (Inr centerHit)"
    using source_castRay_80 by (simp add: source_angle_80)
  from wall_finder_terminates [OF source_steady m h] obtain hit n
    where r: "castRay sourceData 80 (rayAngleAt sourceData 80) = Some (Inr hit)"
      and w: "wallFinder (tilemap sourceData)
         (cos (degreeToRadians (rayAngleAt sourceData 80)) / precision sourceData)
         (sin (degreeToRadians (rayAngleAt sourceData 80)) / precision sourceData)
         (player_x sourceData) (player_y sourceData)
       = Some (Inr (hit_x hit, hit_y hit, Some (hit_wall hit)))"
      and b: "\<not> outOfBounds (tilemap sourceData) (hit_x hit) (hit_y hit)"
      and d: "0 < hit_distance hit"
    by blast
  from r c have e: "hit = centerHit" by simp
  from w b d show ?thesis
    unfolding e using source_steady m c by (simp add: centerHit_def)
qed

text \<open>
  Claim C5. In every column the distance after the fish eye fix is the distance from
  the player to the point where the wall finder ended, times the cosine of the ray
  angle minus the player's angle; in a column whose ray angle is the player's angle the
  two distances are equal.
\<close>

theorem fish_eye_fix:
  assumes "castRay d rayCount rayAngle = Some (Inr hit)"
  shows "hit_rayAngle hit = rayAngle
     \<and> hit_rawDistance hit
         = sqrt ((player_x d - hit_x hit)\<^sup>2 + (player_y d - hit_y hit)\<^sup>2)
     \<and> hit_distance hit
         = hit_rawDistance hit * cos (degreeToRadians (hit_rayAngle hit - player_angle d))
     \<and> (rayAngle = player_angle d \<longrightarrow> hit_distance hit = hit_rawDistance hit)"
  using castRay_hit [OF assms] by (simp add: degreeToRadians_def)

theorem fish_eye_fix_witness:
  "castRay sourceData 80 (rayAngleAt sourceData 80) = Some (Inr centerHit)
   \<and> rayAngleAt sourceData 80 = player_angle sourceData
   \<and> hit_rawDistance centerHit = 7 \<and> hit_distance centerHit = hit_rawDistance centerHit"
proof -
  have c: "castRay sourceData 80 (rayAngleAt sourceData 80) = Some (Inr centerHit)"
    using source_castRay_80 by (simp add: source_angle_80)
  have "player_angle sourceData = 90" by (simp add: sourceData_def)
  then have a: "rayAngleAt sourceData 80 = player_angle sourceData"
    by (simp add: source_angle_80)
  from fish_eye_fix [OF c] a c show ?thesis by (simp add: centerHit_def)
qed

lemma floor_rem_floor_mod:
  assumes "0 \<le> v" "0 < w"
  shows "\<lfloor>js_rem v (real w)\<rfloor> = \<lfloor>v\<rfloor> mod int w"
proof -
  have "0 \<le> v / real w" using assms by simp
  then have t: "js_trunc (v / real w) = \<lfloor>v / real w\<rfloor>" by (simp add: js_trunc_def)
  have "\<lfloor>v / real_of_int (int w)\<rfloor> = \<lfloor>v\<rfloor> div int w"
    by (rule floor_divide_real_eq_div) simp
  then have q: "\<lfloor>v / real w\<rfloor> = \<lfloor>v\<rfloor> div int w" by simp
  have "js_rem v (real w) = v - of_int (int w * (\<lfloor>v\<rfloor> div int w))"
    by (simp add: js_rem_def t q)
  then have "\<lfloor>js_rem v (real w)\<rfloor> = \<lfloor>v\<rfloor> - int w * (\<lfloor>v\<rfloor> div int w)"
    by (simp only: floor_diff_of_int)
  then show ?thesis by (simp add: minus_mult_div_eq_mod)
qed

text \<open>
  Claim C9. For a wall hit, that is a column whose wall finder has ended inside the map,
  on a texture of positive width: the texture column of the column is
  \<open>floor (textureWidth * (hitX + hitY)) mod textureWidth\<close>, it is a column of the
  texture, and it is the column that \<^verbatim>\<open>drawTexture\<close> is called with for the strip.
\<close>

theorem wall_texture_column:
  assumes "castRay d rayCount rayAngle = Some (Inr hit)"
    and "\<not> outOfBounds (tilemap d) (hit_x hit) (hit_y hit)"
    and "0 < tex_width (hit_texture hit)"
  shows "hit_texturePositionX hit
       = \<lfloor>real (tex_width (hit_texture hit)) * (hit_x hit + hit_y hit)\<rfloor>
           mod int (tex_width (hit_texture hit))
     \<and> 0 \<le> hit_texturePositionX hit
     \<and> hit_texturePositionX hit < int (tex_width (hit_texture hit))
     \<and> drawColumn d hit buf
       = (case drawBackground d (real rayCount) 0
                 (projection_halfHeight d - of_int (hit_wallHeight hit))
                 (at_index (backgrounds d) 0) buf of
            Inl e \<Rightarrow> Inl e
          | Inr buf1 \<Rightarrow>
              (case drawTexture d (real rayCount) (hit_wallHeight hit)
                      (\<lfloor>real (tex_width (hit_texture hit)) * (hit_x hit + hit_y hit)\<rfloor>
                         mod int (tex_width (hit_texture hit)))
                      (hit_texture hit) buf1 of
                 Inl e \<Rightarrow> Inl e
               | Inr buf2 \<Rightarrow>
                   drawFloor d (real rayCount) (hit_wallHeight hit) rayAngle buf2))"
proof -
  let ?w = "tex_width (hit_texture hit)"
  from assms(2) have "0 \<le> hit_x hit" "0 \<le> hit_y hit" by (simp_all add: outOfBounds_def)
  then have "0 \<le> real ?w * (hit_x hit + hit_y hit)" by simp
  from floor_rem_floor_mod [OF this assms(3)] castRay_hit [OF assms(1)]
  have e: "hit_texturePositionX hit = \<lfloor>real ?w * (hit_x hit + hit_y hit)\<rfloor> mod int ?w"
    by (simp add: texturePositionX_def)
  from castRay_hit [OF assms(1)]
  have c: "hit_rayCount hit = rayCount" "hit_rayAngle hit = rayAngle" by simp_all
  have dc: "drawColumn d hit buf
       = (case drawBackground d (real rayCount) 0
                 (projection_halfHeight d - of_int (hit_wallHeight hit))
                 (at_index (backgrounds d) 0) buf of
            Inl e \<Rightarrow> Inl e
          | Inr buf1 \<Rightarrow>
              (case drawTexture d (real rayCount) (hit_wallHeight hit)
                      (hit_texturePositionX hit) (hit_texture hit) buf1 of
                 Inl e \<Rightarrow> Inl e
               | Inr buf2 \<Rightarrow>
                   drawFloor d (real rayCount) (hit_wallHeight hit) rayAngle buf2))"
    unfolding drawColumn_def c by (rule refl)
  have r: "0 \<le> hit_texturePositionX hit \<and> hit_texturePositionX hit < int ?w"
    unfolding e using assms(3) by simp
  from r dc show ?thesis unfolding e [symmetric] using e by simp
qed

theorem wall_texture_column_witness:
  "castRay sourceData 80 (rayAngleAt sourceData 80) = Some (Inr centerHit)
   \<and> \<not> outOfBounds (tilemap sourceData) (hit_x centerHit) (hit_y centerHit)
   \<and> tex_width (hit_texture centerHit) = 16
   \<and> hit_x centerHit + hit_y centerHit = 11
   \<and> hit_texturePositionX centerHit = \<lfloor>16 * 11 :: real\<rfloor> mod 16
   \<and> hit_texturePositionX centerHit = 0"
proof -
  have c: "castRay sourceData 80 (rayAngleAt sourceData 80) = Some (Inr centerHit)"
    using source_castRay_80 by (simp add: source_angle_80)
  have b: "\<not> outOfBounds (tilemap sourceData) (hit_x centerHit) (hit_y centerHit)"
    by (simp add: outOfBounds_def centerHit_def sourceData_def sourceMap_def mapWidth_def)
  have w: "0 < tex_width (hit_texture centerHit)" by (simp add: centerHit_def loaded_def)
  from wall_texture_column [OF c b w] c b show ?thesis
    by (simp add: centerHit_def loaded_def)
qed

subsection \<open>Rows that the floor casting skips\<close>

lemma drawFloorRow_skip:
  assumes "floorSkipped d rayAngle y"
  shows "drawFloorRow d x1 rayAngle y buf = Inr buf"
  using assms
  by (auto simp: floorSkipped_def drawFloorRow_def split: prod.splits sum.splits)

lemma setByte_frame:
  "length (setByte buf j v) = length buf
   \<and> (i \<noteq> j \<longrightarrow> at_index (setByte buf j v) i = at_index buf i)"
  by (auto simp: setByte_def at_index_def)

lemma drawPixel_frame:
  assumes "drawPixel d x y color buf = Inr buf'"
  shows "length buf' = length buf
     \<and> (\<forall>i. i < pixelOffset d x y \<or> pixelOffset d x y + 3 < i
          \<longrightarrow> at_index buf' i = at_index buf i)"
proof (cases color)
  case None
  with assms show ?thesis by (simp add: drawPixel_def)
next
  case (Some c)
  obtain r g b a where c: "c = Color r g b a" by (cases c)
  let ?o = "pixelOffset d x y"
  have b: "buf' = setByte (setByte (setByte (setByte buf ?o r) (?o + 1) g) (?o + 2) b) (?o + 3) a"
    using assms by (simp add: drawPixel_def Some c Let_def)
  have "length buf' = length buf" unfolding b by (simp add: setByte_frame)
  moreover have "at_index buf' i = at_index buf i" if "i < ?o \<or> ?o + 3 < i" for i
  proof -
    from that have "i \<noteq> ?o" "i \<noteq> ?o + 1" "i \<noteq> ?o + 2" "i \<noteq> ?o + 3" by auto
    then show ?thesis unfolding b by (simp add: setByte_frame)
  qed
  ultimately show ?thesis by blast
qed

lemma drawFloorRow_frame:
  assumes "drawFloorRow d x1 rayAngle y buf = Inr buf'"
  shows "length buf' = length buf
     \<and> (\<forall>i. i < pixelOffset d x1 y \<or> pixelOffset d x1 y + 3 < i
          \<longrightarrow> at_index buf' i = at_index buf i)"
proof -
  from assms have "buf' = buf \<or> (\<exists>color. drawPixel d x1 y color buf = Inr buf')"
    by (auto simp: drawFloorRow_def split: prod.splits sum.splits option.splits if_splits)
  then show ?thesis using drawPixel_frame by blast
qed

lemma drawFloorLoop_frame:
  assumes "drawFloorLoop d x1 rayAngle y buf = Inr buf'"
    and "\<forall>j::nat. y + real j < real (projection_height d)
           \<and> \<not> floorSkipped d rayAngle (y + real j)
         \<longrightarrow> i < pixelOffset d x1 (y + real j) \<or> pixelOffset d x1 (y + real j) + 3 < i"
  shows "length buf' = length buf \<and> at_index buf' i = at_index buf i"
  using assms
proof (induction d x1 rayAngle y buf rule: drawFloorLoop.induct)
  case (1 d x1 rayAngle y buf)
  show ?case
  proof (cases "y < real (projection_height d)")
    case False
    with "1.prems"(1) have "buf' = buf"
      by (subst (asm) drawFloorLoop.simps) simp
    then show ?thesis by simp
  next
    case True
    with "1.prems"(1) obtain buf1 where row: "drawFloorRow d x1 rayAngle y buf = Inr buf1"
      and rest: "drawFloorLoop d x1 rayAngle (y + 1) buf1 = Inr buf'"
      by (subst (asm) drawFloorLoop.simps) (simp split: sum.splits)
    have here: "length buf1 = length buf \<and> at_index buf1 i = at_index buf i"
    proof (cases "floorSkipped d rayAngle y")
      case True
      with row show ?thesis by (simp add: drawFloorRow_skip)
    next
      case False
      with "1.prems"(2) [rule_format, of 0] \<open>y < real (projection_height d)\<close>
      have "i < pixelOffset d x1 y \<or> pixelOffset d x1 y + 3 < i" by simp
      with drawFloorRow_frame [OF row] show ?thesis by blast
    qed
    have "\<forall>j::nat. y + 1 + real j < real (projection_height d)
           \<and> \<not> floorSkipped d rayAngle (y + 1 + real j)
         \<longrightarrow> i < pixelOffset d x1 (y + 1 + real j) \<or> pixelOffset d x1 (y + 1 + real j) + 3 < i"
    proof (intro allI impI)
      fix j :: nat
      assume a: "y + 1 + real j < real (projection_height d)
           \<and> \<not> floorSkipped d rayAngle (y + 1 + real j)"
      have e: "y + 1 + real j = y + real (Suc j)" by simp
      from "1.prems"(2) [rule_format, of "Suc j"] a
      show "i < pixelOffset d x1 (y + 1 + real j) \<or> pixelOffset d x1 (y + 1 + real j) + 3 < i"
        unfolding e by blast
    qed
    from "1.IH" [OF True row rest this] here show ?thesis by simp
  qed
qed

lemma rows_apart:
  assumes "0 < projection_width d" "j \<noteq> k" "0 \<le> t" "t \<le> 3"
  shows "pixelOffset d x1 (y + real j) + t < pixelOffset d x1 (y + real k)
     \<or> pixelOffset d x1 (y + real k) + 3 < pixelOffset d x1 (y + real j) + t"
proof -
  let ?W = "int (projection_width d)"
  have fj: "\<lfloor>y + real j\<rfloor> = \<lfloor>y\<rfloor> + int j" and fk: "\<lfloor>y + real k\<rfloor> = \<lfloor>y\<rfloor> + int k"
    by linarith+
  have W: "1 \<le> ?W" using assms(1) by simp
  show ?thesis
  proof (cases "j < k")
    case True
    then have "int j + 1 \<le> int k" by simp
    then have "(int j + 1) * ?W \<le> int k * ?W" using W by (intro mult_right_mono) simp_all
    then have "int j * ?W + 1 \<le> int k * ?W" using W by (simp add: algebra_simps)
    then show ?thesis using assms(3,4) by (simp add: pixelOffset_def fj fk algebra_simps)
  next
    case False
    with assms(2) have "int k + 1 \<le> int j" by simp
    then have "(int k + 1) * ?W \<le> int j * ?W" using W by (intro mult_right_mono) simp_all
    then have "int k * ?W + 1 \<le> int j * ?W" using W by (simp add: algebra_simps)
    then show ?thesis using assms(3,4) by (simp add: pixelOffset_def fj fk algebra_simps)
  qed
qed

lemma drawFloorLoop_skipped_row:
  assumes "drawFloorLoop d x1 rayAngle y buf = Inr buf'"
    and "0 < projection_width d"
    and "floorSkipped d rayAngle (y + real j)"
    and "0 \<le> t" "t \<le> 3"
  shows "at_index buf' (pixelOffset d x1 (y + real j) + t)
     = at_index buf (pixelOffset d x1 (y + real j) + t)"
proof -
  have "\<forall>k::nat. y + real k < real (projection_height d)
           \<and> \<not> floorSkipped d rayAngle (y + real k)
         \<longrightarrow> pixelOffset d x1 (y + real j) + t < pixelOffset d x1 (y + real k)
           \<or> pixelOffset d x1 (y + real k) + 3 < pixelOffset d x1 (y + real j) + t"
  proof (intro allI impI)
    fix k :: nat
    assume "y + real k < real (projection_height d)
           \<and> \<not> floorSkipped d rayAngle (y + real k)"
    with assms(3) have "j \<noteq> k" by auto
    from rows_apart [OF assms(2) this assms(4,5)]
    show "pixelOffset d x1 (y + real j) + t < pixelOffset d x1 (y + real k)
       \<or> pixelOffset d x1 (y + real k) + 3 < pixelOffset d x1 (y + real j) + t" .
  qed
  from drawFloorLoop_frame [OF assms(1) this] show ?thesis by simp
qed

lemma drawPixel_total: "\<exists>buf'. drawPixel d x y (Some c) buf = Inr buf'"
  by (cases c) (simp add: drawPixel_def Let_def)

lemma floor_sample_color:
  assumes "\<not> floorOutOfBounds m \<lfloor>tilex\<rfloor> \<lfloor>tiley\<rfloor>" "imageLoaded texture"
  shows "\<exists>px c. tex_data texture = Some px
     \<and> at_index px (floorTextureX texture tilex
          + floorTextureY texture tiley * int (tex_width texture)) = Some c"
proof -
  from assms(2) obtain w h px where t: "texture = Image w h px"
    and w: "0 < w" and h: "0 < h" and l: "length px = w * h"
    by (auto simp: imageLoaded_def split: texture.splits)
  from assms(1) have "0 \<le> \<lfloor>tilex\<rfloor>" "0 \<le> \<lfloor>tiley\<rfloor>"
    by (simp_all add: floorOutOfBounds_def)
  then have p: "0 \<le> tilex" "0 \<le> tiley" by simp_all
  have x: "0 \<le> floorTextureX texture tilex \<and> floorTextureX texture tilex < int w"
    using floor_rem_range [OF p(1) w] by (simp add: floorTextureX_def t)
  have y: "0 \<le> floorTextureY texture tiley \<and> floorTextureY texture tiley < int h"
    using floor_rem_range [OF p(2) h] by (simp add: floorTextureY_def t)
  have "0 \<le> floorTextureX texture tilex + floorTextureY texture tiley * int w
      \<and> floorTextureX texture tilex + floorTextureY texture tiley * int w < int (length px)"
    using index_in_range [of "floorTextureX texture tilex" w "floorTextureY texture tiley" h]
      x y l by simp
  then show ?thesis by (simp add: at_index_def t)
qed

lemma floorTexture_loaded:
  assumes "list_all imageLoaded (floorTextures d)" "floorTexture d tile = Some texture"
  shows "imageLoaded texture"
  using assms
  by (auto simp: floorTexture_def at_index_def list_all_length split: option.splits if_splits)

lemma drawFloorRow_total:
  assumes "list_all imageLoaded (floorTextures d)"
  shows "\<exists>buf'. drawFloorRow d x1 rayAngle y buf = Inr buf'"
proof (cases "floorSkipped d rayAngle y")
  case True
  then show ?thesis by (simp add: drawFloorRow_skip)
next
  case False
  obtain tilex tiley where p: "floorPoint d rayAngle y = (tilex, tiley)"
    by (cases "floorPoint d rayAngle y")
  from False p have b: "\<not> floorOutOfBounds (tilemap d) \<lfloor>tilex\<rfloor> \<lfloor>tiley\<rfloor>"
    by (simp add: floorSkipped_def)
  then have "0 \<le> \<lfloor>tiley\<rfloor> \<and> \<lfloor>tiley\<rfloor> < int (length (tilemap d))"
    by (simp add: floorOutOfBounds_def)
  then obtain tile where r: "readTile (tilemap d) \<lfloor>tiley\<rfloor> \<lfloor>tilex\<rfloor> = Inr tile"
    by (simp add: readTile_def at_index_def)
  with False p b obtain texture where t: "floorTexture d tile = Some texture"
    by (auto simp: floorSkipped_def)
  from floor_sample_color [OF b floorTexture_loaded [OF assms t]]
  obtain px c where "tex_data texture = Some px"
    "at_index px (floorTextureX texture tilex
        + floorTextureY texture tiley * int (tex_width texture)) = Some c"
    by blast
  with p b r t have "drawFloorRow d x1 rayAngle y buf = drawPixel d x1 y (Some c) buf"
    by (simp add: drawFloorRow_def)
  with drawPixel_total show ?thesis by simp
qed

lemma drawFloorLoop_total:
  assumes "list_all imageLoaded (floorTextures d)"
  shows "\<exists>buf'. drawFloorLoop d x1 rayAngle y buf = Inr buf'"
  using assms
proof (induction d x1 rayAngle y buf rule: drawFloorLoop.induct)
  case (1 d x1 rayAngle y buf)
  show ?case
  proof (cases "y < real (projection_height d)")
    case False
    then show ?thesis by (subst drawFloorLoop.simps) simp
  next
    case True
    from drawFloorRow_total [OF "1.prems"] obtain buf1
      where row: "drawFloorRow d x1 rayAngle y buf = Inr buf1" by blast
    from "1.IH" [OF True row "1.prems"] obtain buf'
      where "drawFloorLoop d x1 rayAngle (y + 1) buf1 = Inr buf'" by blast
    with True row show ?thesis by (subst drawFloorLoop.simps) simp
  qed
qed

lemma drawFloorLoop_length:
  assumes "drawFloorLoop d x1 rayAngle y buf = Inr buf'"
  shows "length buf' = length buf"
  using assms
proof (induction d x1 rayAngle y buf rule: drawFloorLoop.induct)
  case (1 d x1 rayAngle y buf)
  show ?case
  proof (cases "y < real (projection_height d)")
    case False
    with "1.prems" show ?thesis by (subst (asm) drawFloorLoop.simps) simp
  next
    case True
    with "1.prems" obtain buf1 where row: "drawFloorRow d x1 rayAngle y buf = Inr buf1"
      and rest: "drawFloorLoop d x1 rayAngle (y + 1) buf1 = Inr buf'"
      by (subst (asm) drawFloorLoop.simps) (simp split: sum.splits)
    from "1.IH" [OF True row rest] drawFloorRow_frame [OF row] show ?thesis by simp
  qed
qed

text \<open>
  What the two bounds checks do where they stand. A ray sample outside the bounds ends
  the wall finder there with the wall id 1. A floor row whose world point is outside
  the map, or on a tile without a floor texture, returns the framebuffer as it got it
  and does not throw; and with the floor textures loaded, a whole call of
  \<^verbatim>\<open>drawFloor\<close> returns a framebuffer of the same length in which the four bytes of
  every such row are the bytes it started with. The last two hypotheses keep the two
  divisors of the floor distance away from zero on every row of the call.
\<close>

lemma bounds_checks_local:
  assumes "list_all imageLoaded (floorTextures d)" and "0 < projection_width d"
    and "0 \<le> wallHeight"
    and "cos (degreeToRadians (player_angle d) - degreeToRadians rayAngle) \<noteq> 0"
  shows "(outOfBounds m (x + rayCos) (y + raySin)
        \<longrightarrow> wallFinder m rayCos raySin x y = Some (Inr (x + rayCos, y + raySin, Some 1)))
     \<and> (floorSkipped d rayAngle row \<longrightarrow> drawFloorRow d x1 rayAngle row buf = Inr buf)
     \<and> (\<exists>buf'. drawFloor d x1 wallHeight rayAngle buf = Inr buf'
          \<and> length buf' = length buf
          \<and> (\<forall>j::nat. floorSkipped d rayAngle (floorStart d wallHeight + real j)
                \<longrightarrow> (\<forall>t. 0 \<le> t \<and> t \<le> 3
                      \<longrightarrow> at_index buf' (pixelOffset d x1 (floorStart d wallHeight + real j) + t)
                          = at_index buf
                              (pixelOffset d x1 (floorStart d wallHeight + real j) + t))))"
proof -
  have a: "outOfBounds m (x + rayCos) (y + raySin)
        \<longrightarrow> wallFinder m rayCos raySin x y = Some (Inr (x + rayCos, y + raySin, Some 1))"
    by (subst wallFinder.simps) simp
  have b: "floorSkipped d rayAngle row \<longrightarrow> drawFloorRow d x1 rayAngle row buf = Inr buf"
    by (simp add: drawFloorRow_skip)
  from drawFloorLoop_total [OF assms(1)] obtain buf'
    where r: "drawFloorLoop d x1 rayAngle (floorStart d wallHeight) buf = Inr buf'"
    by blast
  have "at_index buf' (pixelOffset d x1 (floorStart d wallHeight + real j) + t)
      = at_index buf (pixelOffset d x1 (floorStart d wallHeight + real j) + t)"
    if "floorSkipped d rayAngle (floorStart d wallHeight + real j)" "0 \<le> t \<and> t \<le> 3"
    for j :: nat and t
    using drawFloorLoop_skipped_row [OF r assms(2) that(1)] that(2) by simp
  with r drawFloorLoop_length [OF r] a b show ?thesis
    by (simp add: drawFloor_def)
qed

lemma source_skipped_row: "floorSkipped sourceData 90 (floorStart sourceData 0 + real 0)"
proof -
  have p: "floorPoint sourceData 90 61 = (2, 62)"
    by (simp add: floorPoint_def floorDistanceFixed_def floorDistance_def sourceData_def d90)
  have s: "floorStart sourceData 0 + real 0 = 61"
    by (simp add: floorStart_def projection_halfHeight_def sourceData_def)
  show ?thesis
    unfolding s floorSkipped_def p
    by (simp add: floorOutOfBounds_def sourceData_def sourceMap_def)
qed

lemma bounds_checks_local_source:
  "floorSkipped sourceData 90 61
   \<and> pixelOffset sourceData 80 61 = 39360
   \<and> wallFinder sourceMap 0 1 2 9 = Some (Inr (2, 10, Some 1))
   \<and> (\<exists>buf'. drawFloor sourceData 80 0 90 (replicate 76800 7) = Inr buf'
        \<and> length buf' = 76800
        \<and> at_index buf' 39360 = Some 7 \<and> at_index buf' 39361 = Some 7
        \<and> at_index buf' 39362 = Some 7 \<and> at_index buf' 39363 = Some 7)"
proof -
  have h: "list_all imageLoaded (floorTextures sourceData)" "0 < projection_width sourceData"
    "0 \<le> (0::int)"
    "cos (degreeToRadians (player_angle sourceData) - degreeToRadians 90) \<noteq> 0"
    by (simp_all add: sourceData_def imageLoaded_def loaded_def)
  have s: "floorStart sourceData 0 + real 0 = 61"
    by (simp add: floorStart_def projection_halfHeight_def sourceData_def)
  have o: "pixelOffset sourceData 80 61 = 39360"
    by (simp add: pixelOffset_def sourceData_def)
  have ob: "outOfBounds sourceMap (2 + 0) (9 + 1)"
    by (simp add: outOfBounds_def sourceMap_def)
  note T = bounds_checks_local [OF h, where m = sourceMap and x = 2 and rayCos = 0
      and y = 9 and raySin = 1 and row = 61 and ?x1.0 = 80 and buf = "replicate 76800 7"]
  from T ob have w: "wallFinder sourceMap 0 1 2 9 = Some (Inr (2, 10, Some 1))" by simp
  from T obtain buf' where b: "drawFloor sourceData 80 0 90 (replicate 76800 7) = Inr buf'"
      "length buf' = 76800"
    and g: "\<forall>j::nat. floorSkipped sourceData 90 (floorStart sourceData 0 + real j)
        \<longrightarrow> (\<forall>t. 0 \<le> t \<and> t \<le> 3
          \<longrightarrow> at_index buf' (pixelOffset sourceData 80 (floorStart sourceData 0 + real j) + t)
            = at_index (replicate 76800 7)
                (pixelOffset sourceData 80 (floorStart sourceData 0 + real j) + t))"
    by auto
  from g [rule_format, of 0, OF source_skipped_row]
  have f: "0 \<le> t \<and> t \<le> 3 \<Longrightarrow> at_index buf' (39360 + t)
      = at_index (replicate 76800 7) (39360 + t)" for t
    unfolding s o by blast
  have r: "at_index (replicate 76800 (7::nat)) (39360 + t) = Some 7"
    if "0 \<le> t \<and> t \<le> 3" for t
  proof -
    from that have "nat (39360 + t) < 76800" by linarith
    then have "replicate 76800 (7::nat) ! nat (39360 + t) = 7" by (rule nth_replicate)
    with that show ?thesis by (simp add: at_index_def)
  qed
  have "at_index buf' (39360 + t) = Some 7" if "0 \<le> t \<and> t \<le> 3" for t
    using f [OF that] r [OF that] by simp
  from this [of 0] this [of 1] this [of 2] this [of 3]
  have "at_index buf' 39360 = Some 7" "at_index buf' 39361 = Some 7"
    "at_index buf' 39362 = Some 7" "at_index buf' 39363 = Some 7" by simp_all
  moreover have "floorSkipped sourceData 90 61"
    using source_skipped_row unfolding s .
  ultimately show ?thesis using w b o by blast
qed

subsection \<open>The column loop\<close>

lemma drawLine_total:
  assumes "color = Some c"
  shows "\<exists>buf'. drawLine d x y y2 color buf = Inr buf'"
  using assms
proof (induction d x y y2 color buf rule: drawLine.induct)
  case (1 d x y y2 color buf)
  show ?case
  proof (cases "y < y2")
    case False
    then show ?thesis by (subst drawLine.simps) simp
  next
    case True
    from drawPixel_total [of d x y c buf] "1.prems" obtain buf1
      where p: "drawPixel d x y color buf = Inr buf1" by auto
    from "1.IH" [OF True p "1.prems"] obtain buf'
      where "drawLine d x (y + 1) y2 color buf1 = Inr buf'" by blast
    with True p show ?thesis by (subst drawLine.simps) simp
  qed
qed

lemma textureColor_defined:
  assumes "wallTextureLoaded texture" "0 \<le> tpx" "tpx < int (tex_width texture)"
    and "i < tex_height texture"
  shows "\<exists>c. textureColor texture tpx i = Inr (Some c)"
proof (cases texture)
  case (Image w h px)
  with assms have "0 < w" "length px = w * h" "tpx < int w" "i < h"
    by (simp_all add: wallTextureLoaded_def)
  with index_in_range [of tpx w "int i" h] assms(2)
  have "0 \<le> tpx + int i * int w \<and> tpx + int i * int w < int (length px)" by simp
  then show ?thesis by (simp add: Image at_index_def)
next
  case (Bitmap w h bm cs)
  with assms have l: "length bm = h" "i < h" "tpx < int w"
    and rows: "list_all (\<lambda>row. length row = w \<and> list_all (\<lambda>c. c < length cs) row) bm"
    by (simp_all add: wallTextureLoaded_def)
  from l have r: "at_index bm (int i) = Some (bm ! i)" by (simp add: at_index_def)
  from rows l have rw: "length (bm ! i) = w" "list_all (\<lambda>c. c < length cs) (bm ! i)"
    by (simp_all add: list_all_length)
  have n: "nat tpx < w" using assms(2) l(3) by linarith
  with rw assms(2) have e: "at_index (bm ! i) tpx = Some (bm ! i ! nat tpx)"
    by (simp add: at_index_def)
  from rw n have "bm ! i ! nat tpx < length cs" by (simp add: list_all_length)
  then have "at_index cs (int (bm ! i ! nat tpx)) = Some (cs ! (bm ! i ! nat tpx))"
    by (simp add: at_index_def)
  with r e show ?thesis by (simp add: Bitmap)
qed

lemma drawTextureLoop_total:
  assumes "wallTextureLoaded texture" "0 \<le> tpx" "tpx < int (tex_width texture)"
  shows "\<exists>buf'. drawTextureLoop d x yIncrementer tpx texture i y buf = Inr buf'"
  using assms
proof (induction d x yIncrementer tpx texture i y buf rule: drawTextureLoop.induct)
  case (1 d x yIncrementer tpx texture i y buf)
  show ?case
  proof (cases "i < tex_height texture")
    case False
    then show ?thesis by (subst drawTextureLoop.simps) simp
  next
    case True
    from textureColor_defined [OF "1.prems" True] obtain c
      where c: "textureColor texture tpx i = Inr (Some c)" by blast
    from drawLine_total [of "Some c" c d x y "of_int \<lfloor>y + (yIncrementer + 2)\<rfloor>" buf]
    obtain buf1 where l: "drawLine d x y (of_int \<lfloor>y + (yIncrementer + 2)\<rfloor>) (Some c) buf
        = Inr buf1" by auto
    from "1.IH" [OF True c l "1.prems"] obtain buf'
      where "drawTextureLoop d x yIncrementer tpx texture (i + 1) (y + yIncrementer) buf1
          = Inr buf'" by blast
    with True c l show ?thesis by (subst drawTextureLoop.simps) simp
  qed
qed

lemma background_color:
  assumes "imageLoaded bg" "0 \<le> offset" "0 \<le> y"
  shows "\<exists>px c. tex_data bg = Some px
     \<and> at_index px (\<lfloor>js_rem offset (real (tex_width bg))\<rfloor>
          + \<lfloor>js_rem y (real (tex_height bg))\<rfloor> * int (tex_width bg)) = Some c"
proof -
  from assms(1) obtain w h px where t: "bg = Image w h px"
    and w: "0 < w" and h: "0 < h" and l: "length px = w * h"
    by (auto simp: imageLoaded_def split: texture.splits)
  from js_rem_range [OF assms(2), of "real w"] w
  have x: "0 \<le> \<lfloor>js_rem offset (real w)\<rfloor> \<and> \<lfloor>js_rem offset (real w)\<rfloor> < int w"
    by (simp add: floor_less_iff)
  from js_rem_range [OF assms(3), of "real h"] h
  have y: "0 \<le> \<lfloor>js_rem y (real h)\<rfloor> \<and> \<lfloor>js_rem y (real h)\<rfloor> < int h"
    by (simp add: floor_less_iff)
  from index_in_range [of "\<lfloor>js_rem offset (real w)\<rfloor>" w "\<lfloor>js_rem y (real h)\<rfloor>" h] x y l
  have "0 \<le> \<lfloor>js_rem offset (real w)\<rfloor> + \<lfloor>js_rem y (real h)\<rfloor> * int w
      \<and> \<lfloor>js_rem offset (real w)\<rfloor> + \<lfloor>js_rem y (real h)\<rfloor> * int w < int (length px)"
    by simp
  then show ?thesis by (simp add: t at_index_def)
qed

lemma drawBackgroundLoop_total:
  assumes "background = Some bg" "imageLoaded bg" "0 \<le> offset" "0 \<le> y"
  shows "\<exists>buf'. drawBackgroundLoop d x offset y y2 background buf = Inr buf'"
  using assms
proof (induction d x offset y y2 background buf rule: drawBackgroundLoop.induct)
  case (1 d x offset y y2 background buf)
  show ?case
  proof (cases "y < y2")
    case False
    then show ?thesis by (subst drawBackgroundLoop.simps) simp
  next
    case True
    from background_color [OF "1.prems"(2-4)] obtain px c
      where px: "tex_data bg = Some px"
        and c: "at_index px (\<lfloor>js_rem offset (real (tex_width bg))\<rfloor>
          + \<lfloor>js_rem y (real (tex_height bg))\<rfloor> * int (tex_width bg)) = Some c"
      by blast
    from drawPixel_total [of d x y c buf] obtain buf1
      where p: "drawPixel d x y (Some c) buf = Inr buf1" by blast
    have "0 \<le> y + 1" using "1.prems"(4) by simp
    from "1.IH" [OF True "1.prems"(1) refl refl px _ "1.prems"(1,2,3) this, of buf1] c p
    obtain buf' where "drawBackgroundLoop d x offset (y + 1) y2 background buf1 = Inr buf'"
      by auto
    with True "1.prems"(1) px c p show ?thesis
      by (subst drawBackgroundLoop.simps) (simp add: Let_def)
  qed
qed

lemma castRay_wellFormed:
  assumes "wellFormed d"
  shows "\<exists>hit. castRay d rayCount rayAngle = Some (Inr hit)
     \<and> wallTextureLoaded (hit_texture hit)
     \<and> 0 \<le> hit_texturePositionX hit
     \<and> hit_texturePositionX hit < int (tex_width (hit_texture hit))"
proof -
  let ?rc = "cos (degreeToRadians rayAngle) / precision d"
  let ?rs = "sin (degreeToRadians rayAngle) / precision d"
  from assms have p: "steady d"
    and e: "enclosed (tilemap d) \<and> rectangular (tilemap d)
          \<and> interior (tilemap d) (player_x d) (player_y d) \<and> 1 \<le> precision d"
    and ids: "list_all (list_all (\<lambda>t. t \<le> length (textures d))) (tilemap d)"
    and tx: "list_all wallTextureLoaded (textures d)"
    by (simp_all add: wellFormed_def steady_def)
  from column_wall [OF p, of rayAngle] e obtain n t row
    where w: "wallFinder (tilemap d) ?rc ?rs (player_x d) (player_y d)
        = Some (Inr (player_x d + real (Suc n) * ?rc, player_y d + real (Suc n) * ?rs, Some t))"
      and b: "\<not> outOfBounds (tilemap d) (player_x d + real (Suc n) * ?rc)
          (player_y d + real (Suc n) * ?rs)"
      and t: "0 < t" "row \<in> set (tilemap d)" "t \<in> set row"
    by blast
  let ?hx = "player_x d + real (Suc n) * ?rc" and ?hy = "player_y d + real (Suc n) * ?rs"
  from ids t have "t \<le> length (textures d)" by (auto simp: list_all_iff)
  with t(1) have i: "0 \<le> int t - 1" "nat (int t - 1) < length (textures d)" by simp_all
  define texture where "texture = textures d ! nat (int t - 1)"
  from i have a: "at_index (textures d) (int t - 1) = Some texture"
    by (simp add: at_index_def texture_def)
  from tx i have l: "wallTextureLoaded texture"
    by (simp add: list_all_length texture_def)
  then have wd: "0 < tex_width texture"
    by (cases texture) (simp_all add: wallTextureLoaded_def)
  from b have "0 \<le> ?hx" "0 \<le> ?hy" by (simp_all add: outOfBounds_def)
  then have "0 \<le> real (tex_width texture) * (?hx + ?hy)" by simp
  from js_rem_range [OF this, of "real (tex_width texture)"] wd
  have x: "0 \<le> texturePositionX texture ?hx ?hy
      \<and> texturePositionX texture ?hx ?hy < int (tex_width texture)"
    by (simp add: texturePositionX_def floor_less_iff)
  from castRay_of_wall [OF w a, of rayCount] l x show ?thesis by simp
qed

lemma drawColumn_total:
  assumes "wellFormed d" "wallTextureLoaded (hit_texture hit)"
    and "0 \<le> hit_texturePositionX hit"
    and "hit_texturePositionX hit < int (tex_width (hit_texture hit))"
  shows "\<exists>buf'. drawColumn d hit buf = Inr buf'"
proof -
  from assms(1) obtain bg rest where bg: "backgrounds d = bg # rest" "imageLoaded bg"
    and fl: "list_all imageLoaded (floorTextures d)" and an: "0 \<le> player_angle d"
    by (auto simp: wellFormed_def split: list.splits)
  have a: "at_index (backgrounds d) 0 = Some bg" by (simp add: at_index_def bg)
  have o: "0 \<le> player_angle d + real (hit_rayCount hit)" using an by simp
  have "\<exists>buf1. drawBackgroundLoop d (real (hit_rayCount hit))
        (player_angle d + real (hit_rayCount hit)) 0
        (projection_halfHeight d - of_int (hit_wallHeight hit)) (at_index (backgrounds d) 0) buf
      = Inr buf1"
    by (rule drawBackgroundLoop_total [OF a bg(2) o]) simp
  then obtain buf1
    where b1: "drawBackground d (real (hit_rayCount hit)) 0
        (projection_halfHeight d - of_int (hit_wallHeight hit)) (at_index (backgrounds d) 0) buf
      = Inr buf1"
    unfolding drawBackground_def by blast
  have "\<exists>buf2. drawTextureLoop d (real (hit_rayCount hit))
        (of_int (hit_wallHeight hit) * 2 / real (tex_height (hit_texture hit)))
        (hit_texturePositionX hit) (hit_texture hit) 0
        (projection_halfHeight d - of_int (hit_wallHeight hit)) buf1 = Inr buf2"
    by (rule drawTextureLoop_total [OF assms(2-4)])
  then obtain buf2
    where b2: "drawTexture d (real (hit_rayCount hit)) (hit_wallHeight hit)
        (hit_texturePositionX hit) (hit_texture hit) buf1 = Inr buf2"
    unfolding drawTexture_def Let_def by blast
  have "\<exists>buf3. drawFloorLoop d (real (hit_rayCount hit)) (hit_rayAngle hit)
        (floorStart d (hit_wallHeight hit)) buf2 = Inr buf3"
    by (rule drawFloorLoop_total [OF fl])
  then obtain buf3
    where b3: "drawFloor d (real (hit_rayCount hit)) (hit_wallHeight hit) (hit_rayAngle hit) buf2
      = Inr buf3"
    unfolding drawFloor_def by blast
  from b1 b2 b3 show ?thesis by (simp add: drawColumn_def)
qed

lemma rayCastingLoop_total:
  assumes "wellFormed d"
  shows "\<exists>hits' buf'. rayCastingLoop d rayCount rayAngle hits buf = Some (Inr (hits', buf'))"
  using assms
proof (induction d rayCount rayAngle hits buf rule: rayCastingLoop.induct)
  case (1 d rayCount rayAngle hits buf)
  show ?case
  proof (cases "rayCount < projection_width d")
    case False
    then show ?thesis by (subst rayCastingLoop.simps) simp
  next
    case True
    from castRay_wellFormed [OF "1.prems", of rayCount rayAngle] obtain hit
      where c: "castRay d rayCount rayAngle = Some (Inr hit)"
        and h: "wallTextureLoaded (hit_texture hit)" "0 \<le> hit_texturePositionX hit"
          "hit_texturePositionX hit < int (tex_width (hit_texture hit))"
      by blast
    from drawColumn_total [OF "1.prems" h] obtain buf1
      where dc: "drawColumn d hit buf = Inr buf1" by blast
    from "1.IH" [OF True c refl dc "1.prems"] obtain hits' buf'
      where "rayCastingLoop d (rayCount + 1) (rayAngle + incrementAngle d) (hits @ [hit]) buf1
          = Some (Inr (hits', buf'))" by blast
    with True c dc show ?thesis by (subst rayCastingLoop.simps) simp
  qed
qed

lemma rayCastingLoop_hits:
  assumes "rayCastingLoop d rayCount rayAngle hits buf = Some (Inr (hits', buf'))"
  shows "\<exists>new. hits' = hits @ new \<and> length new = projection_width d - rayCount
     \<and> (\<forall>i < length new.
          castRay d (rayCount + i) (rayAngle + real i * incrementAngle d)
            = Some (Inr (new ! i)))"
  using assms
proof (induction d rayCount rayAngle hits buf rule: rayCastingLoop.induct)
  case (1 d rayCount rayAngle hits buf)
  show ?case
  proof (cases "rayCount < projection_width d")
    case False
    with "1.prems" have "hits' = hits"
      by (subst (asm) rayCastingLoop.simps) simp
    with False show ?thesis by simp
  next
    case True
    with "1.prems" obtain hit buf1
      where c: "castRay d rayCount rayAngle = Some (Inr hit)"
        and dc: "drawColumn d hit buf = Inr buf1"
        and rest: "rayCastingLoop d (rayCount + 1) (rayAngle + incrementAngle d)
            (hits @ [hit]) buf1 = Some (Inr (hits', buf'))"
      by (subst (asm) rayCastingLoop.simps) (simp split: option.splits sum.splits)
    from "1.IH" [OF True c refl dc rest] obtain new
      where n: "hits' = (hits @ [hit]) @ new"
        "length new = projection_width d - (rayCount + 1)"
        "\<forall>i < length new.
            castRay d (rayCount + 1 + i) (rayAngle + incrementAngle d + real i * incrementAngle d)
              = Some (Inr (new ! i))"
      by blast
    have "castRay d (rayCount + i) (rayAngle + real i * incrementAngle d)
        = Some (Inr ((hit # new) ! i))" if "i < length (hit # new)" for i
    proof (cases i)
      case 0
      with c show ?thesis by simp
    next
      case (Suc k)
      with that have "k < length new" by simp
      with n(3) have "castRay d (rayCount + 1 + k)
          (rayAngle + incrementAngle d + real k * incrementAngle d) = Some (Inr (new ! k))"
        by blast
      then show ?thesis by (simp add: Suc algebra_simps)
    qed
    moreover have "length (hit # new) = projection_width d - rayCount"
      using n(2) True by simp
    moreover have "hits' = hits @ (hit # new)" using n(1) by simp
    ultimately show ?thesis by blast
  qed
qed

lemma source_wellFormed: "wellFormed sourceData"
proof -
  have m: "rectangular (tilemap sourceData)" "enclosed (tilemap sourceData)"
    "interior (tilemap sourceData) (player_x sourceData) (player_y sourceData)"
    using source_map_enclosed by simp_all
  have t: "list_all (list_all (\<lambda>t. t \<le> length (textures sourceData))) (tilemap sourceData)"
    by (simp add: sourceData_def sourceMap_def)
  have w: "list_all wallTextureLoaded (textures sourceData)"
    by (simp add: sourceData_def wallTextureLoaded_def sourceBitmap_def loaded_def)
  have f: "list_all imageLoaded (floorTextures sourceData)"
    by (simp add: sourceData_def imageLoaded_def loaded_def)
  have b: "case backgrounds sourceData of [] \<Rightarrow> False | bg # rest \<Rightarrow> imageLoaded bg"
    by (simp add: sourceData_def imageLoaded_def loaded_def)
  have c: "0 \<le> player_angle sourceData" "player_angle sourceData < 360"
    by (simp_all add: sourceData_def)
  from source_steady m t w f b c show ?thesis unfolding wellFormed_def by blast
qed

lemma rayCasting_hits:
  assumes "rayCasting d buf = Some (Inr (hits, buf'))"
  shows "length hits = projection_width d
     \<and> (\<forall>k < projection_width d.
          castRay d k (rayAngleAt d k) = Some (Inr (hits ! k))
          \<and> hit_rayCount (hits ! k) = k \<and> hit_rayAngle (hits ! k) = rayAngleAt d k)"
proof -
  from rayCastingLoop_hits [OF assms [unfolded rayCasting_def]] obtain new
    where n: "hits = [] @ new" "length new = projection_width d - 0"
      "\<forall>i < length new.
          castRay d (0 + i) (player_angle d - player_halfFov d + real i * incrementAngle d)
            = Some (Inr (new ! i))"
    by blast
  have "castRay d k (rayAngleAt d k) = Some (Inr (hits ! k))" if "k < projection_width d" for k
    using n that by (simp add: rayAngleAt_eq)
  moreover have "hit_rayCount (hits ! k) = k \<and> hit_rayAngle (hits ! k) = rayAngleAt d k"
    if "castRay d k (rayAngleAt d k) = Some (Inr (hits ! k))" for k
    using castRay_hit [OF that] by simp
  ultimately show ?thesis using n by simp
qed

text \<open>
  Claim C2. A call of \<^verbatim>\<open>rayCasting\<close> that returns has gone through exactly
  \<open>projectionWidth\<close> columns, in the order of their numbers, and the result of the
  column \<open>k\<close> is what the ray of that column has found; the ray angle of the first is
  the player's angle minus half the field of view, each next one is larger by
  \<open>incrementAngle = fov / projectionWidth\<close>, and the last is the player's angle plus
  half the field of view minus \<open>incrementAngle\<close>. On a well-formed scene, which is
  within the bounds of \<open>steady\<close>, every call returns. The angles are exact reals:
  the equalities hold as such, where the source adds doubles.
\<close>

theorem rayCasting_columns:
  "(\<forall>hits buf'. rayCasting d buf = Some (Inr (hits, buf')) \<longrightarrow>
       length hits = projection_width d
     \<and> (\<forall>k < projection_width d.
          hit_rayCount (hits ! k) = k
          \<and> hit_rayAngle (hits ! k)
              = player_angle d - player_fov d / 2 + real k * incrementAngle d
          \<and> castRay d k (player_angle d - player_fov d / 2 + real k * incrementAngle d)
              = Some (Inr (hits ! k)))
     \<and> (\<forall>k. Suc k < projection_width d
          \<longrightarrow> hit_rayAngle (hits ! Suc k) = hit_rayAngle (hits ! k) + incrementAngle d)
     \<and> (0 < projection_width d
          \<longrightarrow> hit_rayAngle (hits ! 0) = player_angle d - player_fov d / 2
            \<and> hit_rayAngle (last hits)
                = player_angle d + player_fov d / 2 - incrementAngle d))
   \<and> (wellFormed d \<longrightarrow> (\<exists>hits buf'. rayCasting d buf = Some (Inr (hits, buf'))))"
proof -
  have part: "length hits = projection_width d
     \<and> (\<forall>k < projection_width d.
          hit_rayCount (hits ! k) = k
          \<and> hit_rayAngle (hits ! k)
              = player_angle d - player_fov d / 2 + real k * incrementAngle d
          \<and> castRay d k (player_angle d - player_fov d / 2 + real k * incrementAngle d)
              = Some (Inr (hits ! k)))
     \<and> (\<forall>k. Suc k < projection_width d
          \<longrightarrow> hit_rayAngle (hits ! Suc k) = hit_rayAngle (hits ! k) + incrementAngle d)
     \<and> (0 < projection_width d
          \<longrightarrow> hit_rayAngle (hits ! 0) = player_angle d - player_fov d / 2
            \<and> hit_rayAngle (last hits)
                = player_angle d + player_fov d / 2 - incrementAngle d)"
    if r: "rayCasting d buf = Some (Inr (hits, buf'))" for hits buf'
  proof -
    let ?W = "projection_width d"
    from rayCasting_hits [OF r]
    have len: "length hits = ?W"
      and col: "\<And>k. k < ?W \<Longrightarrow> hit_rayCount (hits ! k) = k"
      and ang: "\<And>k. k < ?W \<Longrightarrow> hit_rayAngle (hits ! k) = rayAngleAt d k"
      and cst: "\<And>k. k < ?W \<Longrightarrow> castRay d k (rayAngleAt d k) = Some (Inr (hits ! k))"
      by simp_all
    have c: "castRay d k (player_angle d - player_fov d / 2 + real k * incrementAngle d)
        = Some (Inr (hits ! k))" if "k < ?W" for k
      using cst [OF that] by (simp add: rayAngleAt_eq player_halfFov_def)
    have a: "hit_rayAngle (hits ! k)
        = player_angle d - player_fov d / 2 + real k * incrementAngle d" if "k < ?W" for k
      using ang [OF that] by (simp add: rayAngleAt_eq player_halfFov_def)
    have s: "hit_rayAngle (hits ! Suc k) = hit_rayAngle (hits ! k) + incrementAngle d"
      if "Suc k < ?W" for k
      using ang [OF that] ang [of k] that by simp
    have e: "hit_rayAngle (hits ! 0) = player_angle d - player_fov d / 2
        \<and> hit_rayAngle (last hits) = player_angle d + player_fov d / 2 - incrementAngle d"
      if W: "0 < ?W"
    proof -
      from W len have "hits \<noteq> []" by auto
      then have "last hits = hits ! (?W - 1)" using len by (simp add: last_conv_nth)
      then have "hit_rayAngle (last hits)
          = player_angle d - player_fov d / 2 + real (?W - 1) * incrementAngle d"
        using a [of "?W - 1"] W by simp
      also have "real (?W - 1) * incrementAngle d = player_fov d - incrementAngle d"
      proof -
        have "real (?W - 1) = real ?W - 1" using W by (simp add: of_nat_diff)
        moreover have "real ?W * incrementAngle d = player_fov d"
          using W by (simp add: incrementAngle_def)
        ultimately show ?thesis by (simp add: algebra_simps)
      qed
      finally have "hit_rayAngle (last hits)
          = player_angle d + player_fov d / 2 - incrementAngle d" by simp
      with a [OF W] show ?thesis by simp
    qed
    from len col a c s e show ?thesis by blast
  qed
  have "\<exists>hits buf'. rayCasting d buf = Some (Inr (hits, buf'))" if "wellFormed d"
    unfolding rayCasting_def by (rule rayCastingLoop_total [OF that])
  with part show ?thesis by blast
qed

theorem rayCasting_columns_witness:
  "wellFormed sourceData
   \<and> (\<exists>hits buf'. rayCasting sourceData (replicate 76800 0) = Some (Inr (hits, buf'))
        \<and> length hits = 160
        \<and> hit_rayAngle (hits ! 0) = 60
        \<and> hit_rayAngle (hits ! 1) = 60 + 3 / 8
        \<and> hit_rayAngle (last hits) = 120 - 3 / 8
        \<and> hits ! 80 = centerHit)"
proof -
  note T = rayCasting_columns [of sourceData "replicate 76800 0"]
  from T source_wellFormed obtain hits buf'
    where r: "rayCasting sourceData (replicate 76800 0) = Some (Inr (hits, buf'))"
    by blast
  have v: "projection_width sourceData = 160" "player_angle sourceData = 90"
    "player_fov sourceData = 60" "incrementAngle sourceData = 3 / 8"
    by (simp_all add: sourceData_def incrementAngle_def)
  from T r have "length hits = projection_width sourceData"
    and "0 < projection_width sourceData
      \<longrightarrow> hit_rayAngle (hits ! 0) = player_angle sourceData - player_fov sourceData / 2
        \<and> hit_rayAngle (last hits)
            = player_angle sourceData + player_fov sourceData / 2 - incrementAngle sourceData"
    and "Suc 0 < projection_width sourceData
      \<longrightarrow> hit_rayAngle (hits ! Suc 0) = hit_rayAngle (hits ! 0) + incrementAngle sourceData"
    and "80 < projection_width sourceData
      \<longrightarrow> castRay sourceData 80 (player_angle sourceData - player_fov sourceData / 2
            + real 80 * incrementAngle sourceData) = Some (Inr (hits ! 80))"
    by blast+
  then have "length hits = 160" "hit_rayAngle (hits ! 0) = 60"
    "hit_rayAngle (hits ! 1) = 60 + 3 / 8" "hit_rayAngle (last hits) = 120 - 3 / 8"
    "castRay sourceData 80 90 = Some (Inr (hits ! 80))"
    unfolding v by simp_all
  moreover from this(5) have "hits ! 80 = centerHit" by (simp add: source_castRay_80)
  ultimately show ?thesis using r source_wellFormed by blast
qed

subsection \<open>The floor strip against the specification\<close>

lemma floorPoint_spec: "floorPoint d rayAngle y = spec_worldPoint d rayAngle y"
proof -
  have "cos (degreeToRadians (player_angle d) - degreeToRadians rayAngle)
      = cos (degreeToRadians (rayAngle - player_angle d))"
    by (simp only: degreeToRadians_diff cos_minus)
  then show ?thesis
    by (simp add: floorPoint_def floorDistanceFixed_def floorDistance_def Let_def
        spec_worldPoint_def spec_floorDistance_def)
qed

lemma floor_texture_coordinate:
  assumes "0 \<le> v" "0 < n"
  shows "\<lfloor>js_rem (of_int \<lfloor>v * real n\<rfloor>) (real n)\<rfloor> = \<lfloor>v * real n\<rfloor> mod int n"
proof -
  have "0 \<le> v * real n" using assms by simp
  then have "(0::real) \<le> of_int \<lfloor>v * real n\<rfloor>" by simp
  from floor_rem_floor_mod [OF this assms(2)] show ?thesis by simp
qed

lemma drawFloorRow_spec:
  assumes "list_all imageLoaded (floorTextures d)"
  shows "drawFloorRow d x1 rayAngle y buf = spec_floorPixel d x1 rayAngle y buf"
proof -
  obtain wx wy where p: "spec_worldPoint d rayAngle y = (wx, wy)"
    by (cases "spec_worldPoint d rayAngle y")
  show ?thesis
  proof (cases "floorOutOfBounds (tilemap d) \<lfloor>wx\<rfloor> \<lfloor>wy\<rfloor>")
    case True
    then show ?thesis by (simp add: drawFloorRow_def spec_floorPixel_def floorPoint_spec p)
  next
    case False
    then have "0 \<le> \<lfloor>wx\<rfloor>" "0 \<le> \<lfloor>wy\<rfloor>" by (simp_all add: floorOutOfBounds_def)
    then have nn: "0 \<le> wx" "0 \<le> wy" by simp_all
    have c: "floorTextureX texture wx + floorTextureY texture wy * int (tex_width texture)
        = \<lfloor>wx * real (tex_width texture)\<rfloor> mod int (tex_width texture)
          + \<lfloor>wy * real (tex_height texture)\<rfloor> mod int (tex_height texture)
            * int (tex_width texture)"
      if "floorTexture d tile = Some texture" for tile texture
    proof -
      from floorTexture_loaded [OF assms that]
      have "0 < tex_width texture" "0 < tex_height texture"
        by (auto simp: imageLoaded_def split: texture.splits)
      then show ?thesis
        by (simp add: floorTextureX_def floorTextureY_def floor_texture_coordinate nn)
    qed
    show ?thesis
      using False c
      by (simp add: drawFloorRow_def spec_floorPixel_def floorPoint_spec p
          split: sum.splits option.splits)
  qed
qed

lemma drawFloorLoop_spec:
  assumes "list_all imageLoaded (floorTextures d)"
  shows "drawFloorLoop d x1 rayAngle y buf = spec_floorStrip d x1 rayAngle y buf"
  using assms
proof (induction d x1 rayAngle y buf rule: drawFloorLoop.induct)
  case (1 d x1 rayAngle y buf)
  show ?case
  proof (cases "y < real (projection_height d)")
    case False
    then show ?thesis
      by (subst drawFloorLoop.simps, subst spec_floorStrip.simps) simp
  next
    case True
    note r = drawFloorRow_spec [OF "1.prems", of x1 rayAngle y buf]
    have L: "drawFloorLoop d x1 rayAngle y buf
        = (case drawFloorRow d x1 rayAngle y buf of
             Inl e \<Rightarrow> Inl e
           | Inr buf' \<Rightarrow> drawFloorLoop d x1 rayAngle (y + 1) buf')"
      by (subst drawFloorLoop.simps) (simp add: True)
    have R: "spec_floorStrip d x1 rayAngle y buf
        = (case spec_floorPixel d x1 rayAngle y buf of
             Inl e \<Rightarrow> Inl e
           | Inr buf' \<Rightarrow> spec_floorStrip d x1 rayAngle (y + 1) buf')"
      by (subst spec_floorStrip.simps) (simp add: True)
    show ?thesis
    proof (cases "drawFloorRow d x1 rayAngle y buf")
      case (Inl e)
      with r have s: "spec_floorPixel d x1 rayAngle y buf = Inl e" by simp
      show ?thesis unfolding L R Inl s by simp
    next
      case (Inr buf1)
      with r have s: "spec_floorPixel d x1 rayAngle y buf = Inr buf1" by simp
      from "1.IH" [OF True Inr "1.prems"] show ?thesis unfolding L R Inr s by simp
    qed
  qed
qed

text \<open>
  Claim C6. With the floor textures loaded, in a column whose ray has the angle
  \<open>rayAngle\<close> the floor strip that \<^verbatim>\<open>rayCasting\<close> draws after the background and the
  wall is the floor strip of the specification for that angle: every row \<open>y\<close> of
  \<^verbatim>\<open>drawFloor\<close> draws the pixel of the specification, whose world point lies at the
  raw floor distance \<open>projectionHeight / (2y - projectionHeight)\<close> divided by the cosine
  of the ray angle of the column minus the player's angle (in degrees, converted to
  radians), along the ray from the player.
\<close>

theorem floor_distance_correction:
  assumes "castRay d rayCount rayAngle = Some (Inr hit)"
    and "list_all imageLoaded (floorTextures d)"
  shows "drawColumn d hit buf
       = (case drawBackground d (real rayCount) 0
                 (projection_halfHeight d - of_int (hit_wallHeight hit))
                 (at_index (backgrounds d) 0) buf of
            Inl e \<Rightarrow> Inl e
          | Inr buf1 \<Rightarrow>
              (case drawTexture d (real rayCount) (hit_wallHeight hit)
                      (hit_texturePositionX hit) (hit_texture hit) buf1 of
                 Inl e \<Rightarrow> Inl e
               | Inr buf2 \<Rightarrow>
                   spec_floorStrip d (real rayCount) rayAngle
                     (projection_halfHeight d + of_int (hit_wallHeight hit) + 1) buf2))
     \<and> drawFloor d x1 wallHeight rayAngle b
       = spec_floorStrip d x1 rayAngle (projection_halfHeight d + of_int wallHeight + 1) b
     \<and> drawFloorRow d x1 rayAngle y b = spec_floorPixel d x1 rayAngle y b
     \<and> floorDistanceFixed d rayAngle y
       = floorDistance d y / cos (degreeToRadians (rayAngle - player_angle d))
     \<and> floorPoint d rayAngle y
       = (player_x d
            + floorDistance d y / cos (degreeToRadians (rayAngle - player_angle d))
              * cos (degreeToRadians rayAngle),
          player_y d
            + floorDistance d y / cos (degreeToRadians (rayAngle - player_angle d))
              * sin (degreeToRadians rayAngle))"
proof -
  from castRay_hit [OF assms(1)]
  have c: "hit_rayCount hit = rayCount" "hit_rayAngle hit = rayAngle" by simp_all
  have f: "drawFloor d x wh rayAngle b'
      = spec_floorStrip d x rayAngle (projection_halfHeight d + of_int wh + 1) b'"
    for x wh b'
    by (simp add: drawFloor_def floorStart_def drawFloorLoop_spec [OF assms(2)])
  have dc: "drawColumn d hit buf
       = (case drawBackground d (real rayCount) 0
                 (projection_halfHeight d - of_int (hit_wallHeight hit))
                 (at_index (backgrounds d) 0) buf of
            Inl e \<Rightarrow> Inl e
          | Inr buf1 \<Rightarrow>
              (case drawTexture d (real rayCount) (hit_wallHeight hit)
                      (hit_texturePositionX hit) (hit_texture hit) buf1 of
                 Inl e \<Rightarrow> Inl e
               | Inr buf2 \<Rightarrow>
                   spec_floorStrip d (real rayCount) rayAngle
                     (projection_halfHeight d + of_int (hit_wallHeight hit) + 1) buf2))"
    unfolding drawColumn_def c f by (rule refl)
  have k: "cos (degreeToRadians (player_angle d) - degreeToRadians rayAngle)
      = cos (degreeToRadians (rayAngle - player_angle d))"
    by (simp only: degreeToRadians_diff cos_minus)
  have fx: "floorDistanceFixed d rayAngle y
       = floorDistance d y / cos (degreeToRadians (rayAngle - player_angle d))"
    by (simp add: floorDistanceFixed_def k)
  have fp: "floorPoint d rayAngle y
       = (player_x d
            + floorDistance d y / cos (degreeToRadians (rayAngle - player_angle d))
              * cos (degreeToRadians rayAngle),
          player_y d
            + floorDistance d y / cos (degreeToRadians (rayAngle - player_angle d))
              * sin (degreeToRadians rayAngle))"
    by (simp add: floorPoint_def Let_def fx)
  from dc f [of x1 wallHeight b] drawFloorRow_spec [OF assms(2), of x1 rayAngle y b] fx fp
  show ?thesis by (simp only:)
qed

lemma d60: "degreeToRadians 60 = pi / 3"
  by (simp add: degreeToRadians_def)

lemma cos_minus_30: "cos (degreeToRadians (60 - 90)) = sqrt 3 / 2"
proof -
  have "degreeToRadians (60 - 90) = - (pi / 6)" by (simp add: degreeToRadians_def)
  then show ?thesis by (simp only: cos_minus cos_30)
qed

lemma source_floor_point_0:
  "spec_worldPoint sourceData 60 119 = (2 + 60 / (59 * sqrt 3), 2 + 60 / 59)"
proof -
  have v: "player_x sourceData = 2" "player_y sourceData = 2"
    "player_angle sourceData = 90" "real (projection_height sourceData) = 120"
    by (simp_all add: sourceData_def)
  show ?thesis
    unfolding spec_worldPoint_def spec_floorDistance_def v cos_minus_30 d60 cos_60 sin_60
    by simp
qed

lemma source_floor_pixel_0:
  "spec_floorPixel sourceData 0 60 119 buf
     = drawPixel sourceData 0 119 (Some (Color 0 0 0 255)) buf"
proof -
  have p: "0 < sqrt 3" by simp
  have "60 < 59 * sqrt 3" using sqrt3_bounds by simp
  then have "60 / (59 * sqrt 3) < 1" using p by (simp add: pos_divide_less_eq)
  moreover have "0 \<le> 60 / (59 * sqrt 3)" by simp
  ultimately have fx: "\<lfloor>2 + 60 / (59 * sqrt 3)\<rfloor> = 2" by (intro floor_is) simp_all
  have fy: "\<lfloor>2 + 60 / 59 :: real\<rfloor> = 3" by (intro floor_is) simp_all
  have b: "\<not> floorOutOfBounds (tilemap sourceData) 2 3"
    by (simp add: floorOutOfBounds_def sourceData_def sourceMap_def mapWidth_def)
  have t: "readTile (tilemap sourceData) 3 2 = Inr (Some 0)"
    by (simp add: readTile_def at_index_def sourceData_def sourceMap_def)
  have ft: "floorTexture sourceData (Some 0) = Some (loaded 16 16)"
    by (simp add: floorTexture_def at_index_def sourceData_def)
  have td: "tex_data (loaded 16 16) = Some (replicate 256 (Color 0 0 0 255))"
    "tex_width (loaded 16 16) = 16" "tex_height (loaded 16 16) = 16"
    by (simp_all add: loaded_def)
  have ix: "at_index (replicate 256 (Color 0 0 0 255)) (i mod int 16 + j mod int 16 * int 16)
      = Some (Color 0 0 0 255)" for i j :: int
  proof -
    have "0 \<le> i mod 16" "i mod 16 < 16" "0 \<le> j mod 16" "j mod 16 < 16" by simp_all
    then have r: "0 \<le> i mod 16 + j mod 16 * 16" "i mod 16 + j mod 16 * 16 < 256"
      by linarith+
    then have "nat (i mod 16 + j mod 16 * 16) < 256" by linarith
    then have "replicate 256 (Color 0 0 0 255) ! nat (i mod 16 + j mod 16 * 16)
        = Color 0 0 0 255" by (rule nth_replicate)
    with r show ?thesis by (simp add: at_index_def)
  qed
  show ?thesis
    unfolding spec_floorPixel_def source_floor_point_0
    by (simp only: prod.case fx fy b t ft td ix if_False sum.case option.case)
qed

lemma source_pixel_0:
  "drawPixel sourceData 0 119 (Some (Color 0 0 0 255)) (replicate 76800 7)
     = Inr ((replicate 76800 7)[76160 := 0, 76161 := 0, 76162 := 0, 76163 := 255])"
  by (simp add: drawPixel_def pixelOffset_def setByte_def sourceData_def)

theorem floor_distance_correction_witness:
  "\<exists>hit. castRay sourceData 0 (rayAngleAt sourceData 0) = Some (Inr hit)
     \<and> list_all imageLoaded (floorTextures sourceData)
     \<and> rayAngleAt sourceData 0 = 60 \<and> player_angle sourceData = 90
     \<and> drawColumn sourceData hit (replicate 76800 7)
       = (case drawBackground sourceData 0 0 (60 - of_int (hit_wallHeight hit))
                 (at_index (backgrounds sourceData) 0) (replicate 76800 7) of
            Inl e \<Rightarrow> Inl e
          | Inr buf1 \<Rightarrow>
              (case drawTexture sourceData 0 (hit_wallHeight hit)
                      (hit_texturePositionX hit) (hit_texture hit) buf1 of
                 Inl e \<Rightarrow> Inl e
               | Inr buf2 \<Rightarrow>
                   spec_floorStrip sourceData 0 60 (60 + of_int (hit_wallHeight hit) + 1) buf2))
     \<and> floorDistance sourceData 119 = 60 / 59
     \<and> floorDistanceFixed sourceData 60 119 = 60 / 59 / (sqrt 3 / 2)
     \<and> floorPoint sourceData 60 119 = (2 + 60 / 59 / (sqrt 3 / 2) * (1 / 2), 2 + 60 / 59)
     \<and> drawFloorRow sourceData 0 60 119 (replicate 76800 7)
       = Inr ((replicate 76800 7)[76160 := 0, 76161 := 0, 76162 := 0, 76163 := 255])"
proof -
  have a: "rayAngleAt sourceData 0 = 60" "player_angle sourceData = 90"
    "projection_halfHeight sourceData = 60" "player_x sourceData = 2"
    "player_y sourceData = 2"
    by (simp_all add: sourceData_def player_halfFov_def projection_halfHeight_def)
  have fl: "list_all imageLoaded (floorTextures sourceData)"
    by (simp add: sourceData_def imageLoaded_def loaded_def)
  from castRay_wellFormed [OF source_wellFormed, of 0 "rayAngleAt sourceData 0"] obtain hit
    where c: "castRay sourceData 0 (rayAngleAt sourceData 0) = Some (Inr hit)" by blast
  have fd: "floorDistance sourceData 119 = 60 / 59"
    by (simp add: floorDistance_def sourceData_def)
  note T = floor_distance_correction [OF c fl, of "replicate 76800 7" 0 0
      "replicate 76800 7" 119, unfolded a cos_minus_30 d60 cos_60 sin_60 fd
      source_floor_pixel_0 source_pixel_0 of_nat_0]
  from T c fl a(1,2) fd show ?thesis
    unfolding a by (intro exI [of _ hit]) simp
qed

subsection \<open>A ray that leaves the map\<close>

lemma sqrt2_fine: "14142 / 10000 < sqrt 2 \<and> sqrt 2 < 14143 / 10000"
proof
  show "14142 / 10000 < sqrt 2" by (rule real_less_rsqrt) (simp add: power2_eq_square)
  show "sqrt 2 < 14143 / 10000" by (rule real_less_lsqrt) (simp_all add: power2_eq_square)
qed

lemma d225:
  "cos (degreeToRadians 225) = - (sqrt 2 / 2) \<and> sin (degreeToRadians 225) = - (sqrt 2 / 2)"
proof -
  have "degreeToRadians 225 = pi / 4 + pi" by (simp add: degreeToRadians_def)
  then show ?thesis by (simp only: cos_periodic_pi sin_periodic_pi cos_45 sin_45)
qed

text \<open>
  Holding the turn-right key for 30 ticks takes the player from the angle 90 of the
  start to the angle 225.
\<close>

lemma gap_turn:
  assumes "n \<le> 30"
  shows "(tick ^^ n) gapStart = gapStart\<lparr>player_angle := 90 + real n * (9 / 2)\<rparr>"
  using assms
proof (induction n)
  case 0
  show ?case by (simp add: gapStart_def sourceData_def)
next
  case (Suc n)
  let ?a = "90 + real n * (9 / 2)"
  from Suc have e: "(tick ^^ n) gapStart = gapStart\<lparr>player_angle := ?a\<rparr>" by simp
  have "real n \<le> 29" using Suc.prems by simp
  then have r: "0 \<le> ?a + 9 / 2" "?a + 9 / 2 < 360" by simp_all
  then have "0 \<le> (?a + 9 / 2) / 360" "(?a + 9 / 2) / 360 < 1" by simp_all
  then have "\<lfloor>(?a + 9 / 2) / 360\<rfloor> = 0" by linarith
  with r have m: "js_rem (?a + 9 / 2) 360 = ?a + 9 / 2"
    by (simp add: js_rem_def js_trunc_def)
  have "?a + 9 / 2 = 90 + real (Suc n) * (9 / 2)" by (simp add: field_simps)
  with m have q: "js_rem (?a + 9 / 2) 360 = 90 + real (Suc n) * (9 / 2)" by simp
  have "tick (gapStart\<lparr>player_angle := ?a\<rparr>)
      = gapStart\<lparr>player_angle := js_rem (?a + 9 / 2) 360\<rparr>"
    by (simp add: tick_def movePlayer_def turnRight_def gapStart_def sourceData_def Let_def)
  then have "tick ((tick ^^ n) gapStart)
      = gapStart\<lparr>player_angle := 90 + real (Suc n) * (9 / 2)\<rparr>"
    unfolding e q .
  then show ?case by (simp only: funpow.simps o_apply)
qed

lemma gap_reached: "(tick ^^ 30) gapStart = gapData"
  using gap_turn [of 30] by (simp add: gapData_def)

text \<open>The column 80 on the map with the gap: the ray runs from (2, 2) to the corner.\<close>

lemma gap_column_tiles:
  assumes "0 < j" "j \<le> 181"
  shows "\<not> stops gapMap (2 + real j * (- (sqrt 2 / 128))) (2 + real j * (- (sqrt 2 / 128)))"
proof -
  let ?v = "2 + real j * (- (sqrt 2 / 128))"
  have j: "1 \<le> real j" "real j \<le> 181" using assms by simp_all
  have s: "0 < sqrt 2 / 128" "sqrt 2 / 128 < 14143 / 1280000"
    using sqrt2_fine by simp_all
  have "real j * (sqrt 2 / 128) \<le> 181 * (sqrt 2 / 128)"
    using j(2) s(1) by (intro mult_right_mono) simp_all
  also have "\<dots> < 181 * (14143 / 1280000)" using s(2) by simp
  finally have lo: "0 < ?v" by simp
  have "1 * (sqrt 2 / 128) \<le> real j * (sqrt 2 / 128)"
    using j(1) s(1) by (intro mult_right_mono) simp_all
  then have hi: "?v < 2" using s(1) by simp
  have fl: "0 \<le> \<lfloor>?v\<rfloor>" "\<lfloor>?v\<rfloor> < 2" using lo hi by linarith+
  then consider "\<lfloor>?v\<rfloor> = 0" | "\<lfloor>?v\<rfloor> = 1" by linarith
  then have t: "readTile gapMap \<lfloor>?v\<rfloor> \<lfloor>?v\<rfloor> = Inr (Some 0)"
    by cases (simp_all add: readTile_def at_index_def gapMap_def)
  have b: "\<not> outOfBounds gapMap ?v ?v"
    using lo hi by (simp add: outOfBounds_def gapMap_def mapWidth_def)
  from t b show ?thesis by (simp add: stops_def)
qed

lemma gap_wall_80:
  "wallFinder gapMap (- (sqrt 2 / 128)) (- (sqrt 2 / 128)) 2 2
     = Some (Inr (2 - 91 * sqrt 2 / 64, 2 - 91 * sqrt 2 / 64, Some 1))"
proof -
  let ?c = "- (sqrt 2 / 128)"
  have "\<forall>j. 0 < j \<and> j \<le> 181 \<longrightarrow> \<not> stops gapMap (2 + real j * ?c) (2 + real j * ?c)"
    using gap_column_tiles by blast
  from wallFinder_run [OF this]
  have "wallFinder gapMap ?c ?c 2 2
      = wallFinder gapMap ?c ?c (2 + real 181 * ?c) (2 + real 181 * ?c)" .
  also have "\<dots> = Some (Inr (2 + real 181 * ?c + ?c, 2 + real 181 * ?c + ?c, Some 1))"
  proof -
    have "2 + real 181 * ?c + ?c = 2 - 91 * sqrt 2 / 64" by simp
    moreover have "2 - 91 * sqrt 2 / 64 < 0" using sqrt2_fine by simp
    ultimately have "outOfBounds gapMap (2 + real 181 * ?c + ?c) (2 + real 181 * ?c + ?c)"
      by (simp only: outOfBounds_def) simp
    then show ?thesis by (subst wallFinder.simps) (simp only: if_True)
  qed
  also have "2 + real 181 * ?c + ?c = 2 - 91 * sqrt 2 / 64" by simp
  finally show ?thesis .
qed

lemma gap_angle_80: "rayAngleAt gapData 80 = 225"
  by (simp add: rayAngleAt_eq gapData_def gapStart_def sourceData_def player_halfFov_def
      incrementAngle_def)

lemma gap_castRay_80: "castRay gapData 80 225 = Some (Inr cornerHit)"
proof -
  have v: "tilemap gapData = gapMap" "precision gapData = 64" "player_x gapData = 2"
    "player_y gapData = 2" "player_angle gapData = 225"
    "projection_halfHeight gapData = 60"
    by (simp_all add: gapData_def gapStart_def sourceData_def projection_halfHeight_def)
  have w: "wallFinder (tilemap gapData) (cos (degreeToRadians 225) / precision gapData)
      (sin (degreeToRadians 225) / precision gapData) (player_x gapData) (player_y gapData)
    = Some (Inr (2 - 91 * sqrt 2 / 64, 2 - 91 * sqrt 2 / 64, Some 1))"
    unfolding v d225 [THEN conjunct1] d225 [THEN conjunct2] using gap_wall_80 by simp
  have t: "at_index (textures gapData) (int 1 - 1) = Some sourceBitmap"
    by (simp add: at_index_def gapData_def gapStart_def sourceData_def)
  have "(2 - (2 - 91 * sqrt 2 / 64))\<^sup>2 + (2 - (2 - 91 * sqrt 2 / 64))\<^sup>2 = (91 / 32)\<^sup>2"
    by (simp add: power2_eq_square)
  then have r: "sqrt ((2 - (2 - 91 * sqrt 2 / 64))\<^sup>2 + (2 - (2 - 91 * sqrt 2 / 64))\<^sup>2)
      = 91 / 32"
    by (simp only: real_sqrt_abs)
  have c: "cos (degreeToRadians (225 - 225)) = 1" by (simp add: degreeToRadians_def)
  have h: "\<lfloor>60 / (91 / 32 * 1) :: real\<rfloor> = 21" by (intro floor_is) simp_all
  have s: "- 1 < 4 - 91 * sqrt 2 / 32" "4 - 91 * sqrt 2 / 32 < 0"
    using sqrt2_fine by simp_all
  have ng: "\<not> 0 \<le> 4 - 91 * sqrt 2 / 32" using s by simp
  have ce: "\<lceil>4 - 91 * sqrt 2 / 32\<rceil> = 0" using s by linarith
  have tr: "js_trunc (4 - 91 * sqrt 2 / 32) = 0"
    unfolding js_trunc_def by (simp only: ng if_False ce)
  have fl: "\<lfloor>8 * (4 - 91 * sqrt 2 / 32)\<rfloor> = - 1"
    using sqrt2_fine by (intro floor_is) simp_all
  have "8 * (4 - 91 * sqrt 2 / 32) / 8 = 4 - 91 * sqrt 2 / 32" by simp
  then have "js_rem (8 * (4 - 91 * sqrt 2 / 32)) 8 = 8 * (4 - 91 * sqrt 2 / 32)"
    unfolding js_rem_def by (simp only: tr)
  then have x: "texturePositionX sourceBitmap (2 - 91 * sqrt 2 / 64) (2 - 91 * sqrt 2 / 64)
      = - 1"
    using fl by (simp add: texturePositionX_def sourceBitmap_def)
  show ?thesis
    unfolding castRay_of_wall [OF w t] v r c h x cornerHit_def by simp
qed

lemma gap_drawColumn: "drawColumn gapData cornerHit buf = Inl TypeError"
proof -
  have h: "projection_halfHeight gapData = 60"
    by (simp add: gapData_def gapStart_def sourceData_def projection_halfHeight_def)
  have e: "real (hit_rayCount cornerHit) = 80" "hit_wallHeight cornerHit = 21"
    "hit_texturePositionX cornerHit = - 1" "hit_texture cornerHit = sourceBitmap"
    by (simp_all add: cornerHit_def)
  have c: "textureColor sourceBitmap (- 1) 0 = Inr None"
    by (simp add: sourceBitmap_def at_index_def)
  have l: "drawLine gapData 80 39 y2 None b = Inl TypeError" if "39 < y2" for y2 b
    using that by (subst drawLine.simps) (simp add: drawPixel_def)
  have th: "tex_height sourceBitmap = 8" by (simp add: sourceBitmap_def)
  have fl: "\<lfloor>39 + (21 * 2 / 8 + 2) :: real\<rfloor> = 46" by (intro floor_is) simp_all
  have tl: "drawTextureLoop gapData 80 (21 * 2 / 8) (- 1) sourceBitmap 0 39 b = Inl TypeError"
    for b
    by (subst drawTextureLoop.simps) (simp add: th c fl l)
  have t: "drawTexture gapData (real (hit_rayCount cornerHit)) (hit_wallHeight cornerHit)
      (hit_texturePositionX cornerHit) (hit_texture cornerHit) b = Inl TypeError" for b
    unfolding drawTexture_def Let_def h e th using tl [of b] by simp
  show ?thesis
  proof (cases "drawBackground gapData (real (hit_rayCount cornerHit)) 0
      (projection_halfHeight gapData - of_int (hit_wallHeight cornerHit))
      (at_index (backgrounds gapData) 0) buf")
    case (Inl err)
    then show ?thesis by (cases err) (simp add: drawColumn_def)
  next
    case (Inr buf1)
    then show ?thesis by (simp add: drawColumn_def t)
  qed
qed

text \<open>A column that throws ends the call, whatever the columns before it have drawn.\<close>

lemma rayCastingLoop_throws:
  assumes "steady d" and "k < projection_width d"
    and "castRay d k (rayAngleAt d k) = Some (Inr hit)"
    and "\<And>b. drawColumn d hit b = Inl TypeError"
    and "j + n = k"
  shows "rayCastingLoop d j (rayAngleAt d j) hits buf = Some (Inl TypeError)"
  using assms(5)
proof (induction n arbitrary: j hits buf)
  case 0
  then have "j = k" by simp
  with assms(2-4) show ?case by (subst rayCastingLoop.simps) simp
next
  case (Suc n)
  then have lt: "j < projection_width d" and nx: "Suc j + n = k" using assms(2) by simp_all
  from castRay_returns [OF assms(1), of j "rayAngleAt d j"] obtain r
    where r: "castRay d j (rayAngleAt d j) = Some r" by blast
  show ?case
  proof (cases r)
    case (Inl err)
    with r lt show ?thesis by (cases err) (subst rayCastingLoop.simps, simp)
  next
    case (Inr h)
    show ?thesis
    proof (cases "drawColumn d h buf")
      case (Inl err)
      with r Inr lt show ?thesis by (cases err) (subst rayCastingLoop.simps, simp)
    next
      case b: (Inr buf1)
      from Suc.IH [OF nx, of "hits @ [h]" buf1] r Inr b lt show ?thesis
        by (subst rayCastingLoop.simps) simp
    qed
  qed
qed

lemma gap_steady: "steady gapData"
  by (simp add: steady_def gapData_def gapStart_def sourceData_def gapMap_def mapWidth_def)

lemma gap_rayCasting: "rayCasting gapData buf = Some (Inl TypeError)"
proof -
  have k: "80 < projection_width gapData"
    by (simp add: gapData_def gapStart_def sourceData_def)
  have c: "castRay gapData 80 (rayAngleAt gapData 80) = Some (Inr cornerHit)"
    unfolding gap_angle_80 by (rule gap_castRay_80)
  have "rayCastingLoop gapData 0 (rayAngleAt gapData 0) [] buf = Some (Inl TypeError)"
    by (rule rayCastingLoop_throws [OF gap_steady k c gap_drawColumn]) simp
  then show ?thesis by (simp add: rayCasting_def)
qed

text \<open>
  Claim C7 on the map of the source with the corner tile \<^verbatim>\<open>data.map[0][0]\<close> set to 0,
  after the player has turned from the start to the angle 225. The ray of the column 80
  runs through the corner tile and leaves the map at (-0.0108, -0.0108); the wall
  finder stops there and records the wall id 1, as the claim says. The texture column
  of that hit is \<open>floor ((8 * (hitX + hitY)) % 8) = floor (-0.173) = -1\<close>, no column of
  the texture of the wall 1: \<^verbatim>\<open>drawTexture\<close> reads an undefined color, \<^verbatim>\<open>drawPixel\<close>
  throws, and the TypeError ends \<^verbatim>\<open>rayCasting\<close>. The ray that left the map is not
  recovered locally; it surfaces to the caller of every frame drawn from that state.
\<close>

theorem out_of_bounds_surfaces:
  "(tick ^^ 30) gapStart = gapData
   \<and> castRay gapData 80 (rayAngleAt gapData 80) = Some (Inr cornerHit)
   \<and> outOfBounds (tilemap gapData) (hit_x cornerHit) (hit_y cornerHit)
   \<and> hit_wall cornerHit = 1
   \<and> hit_texturePositionX cornerHit = - 1
   \<and> textureColor (hit_texture cornerHit) (hit_texturePositionX cornerHit) 0 = Inr None
   \<and> drawColumn gapData cornerHit (replicate 76800 0) = Inl TypeError
   \<and> rayCasting gapData (replicate 76800 0) = Some (Inl TypeError)"
proof -
  have c: "castRay gapData 80 (rayAngleAt gapData 80) = Some (Inr cornerHit)"
    unfolding gap_angle_80 by (rule gap_castRay_80)
  have "2 - 91 * sqrt 2 / 64 < 0" using sqrt2_fine by simp
  then have o: "outOfBounds (tilemap gapData) (hit_x cornerHit) (hit_y cornerHit)"
    by (simp add: outOfBounds_def cornerHit_def)
  have t: "textureColor (hit_texture cornerHit) (hit_texturePositionX cornerHit) 0 = Inr None"
    by (simp add: cornerHit_def sourceBitmap_def at_index_def)
  have w: "hit_wall cornerHit = 1" "hit_texturePositionX cornerHit = - 1"
    by (simp_all add: cornerHit_def)
  from gap_reached c o w t gap_drawColumn [of "replicate 76800 0"]
    gap_rayCasting [of "replicate 76800 0"]
  show ?thesis by (simp only:)
qed

end
